theory Spec2Isabelle
  imports Main
begin

section \<open>Values of the host runtime\<close>

text \<open>
  The library is a set of class decorators for ECMAScript proxy handlers
  (\<^verbatim>\<open>src/index.ts\<close>).  Everything it does is expressed through operations of the
  host: property reads, \<^verbatim>\<open>typeof\<close>, \<^verbatim>\<open>Reflect.get\<close>, \<^verbatim>\<open>Reflect.apply\<close>,
  \<^verbatim>\<open>Object.getPrototypeOf\<close>, the conversions \<^verbatim>\<open>String\<close> and \<^verbatim>\<open>Number\<close>.  The
  embedding keeps those operations as parameters (the record \<open>env\<close> below) and
  translates the code of the library itself.

  A handler class is identified by its index in the class table.
\<close>

type_synonym cid = nat

text \<open>
  Symbols.  \<open>getTargetSymbol\<close> is the module-private symbol of line 178,
  \<^verbatim>\<open>const getTargetSymbol = Symbol()\<close>; the two well-known symbols are the ones the
  source compares property keys with.
\<close>

datatype symbol = Symbol_toPrimitive | Symbol_toStringTag | getTargetSymbol | Symbol_other nat

text \<open>
  Values.  Objects owned by the host (targets, prototypes, user functions) are opaque
  references; \<open>HostFunction\<close> are the callable ones.  The two kinds of function object the
  library itself allocates carry what their closure captured:

  \<^item> \<open>wrappedFunction i name writable property receiver target\<close> is the function
    expression of lines 85--94, after \<^verbatim>\<open>Object.defineProperty\<close> of lines 95--98 gave it
    its \<^verbatim>\<open>name\<close> (value and \<^verbatim>\<open>writable\<close> attribute);
  \<^item> \<open>toPrimitiveFunction i target\<close> is the arrow function of lines 123--132.

  The first field of both is the identity of the function object (two function objects
  are the same object iff they were produced by the same evaluation of the function
  expression).  \<open>Proxy i target h\<close> is the object made by
  \<^verbatim>\<open>new Proxy(target, new H())\<close> for the handler class \<open>h\<close>, and \<open>Handler h\<close> is that
  handler instance.  \<open>TypeError\<close> stands for the error object the host throws.
  Numbers are kept as integers: the library never computes with them.
\<close>

datatype val =
    Undefined
  | Null
  | JBool bool
  | JNum int
  | JStr string
  | JSym symbol
  | TypeError
  | HostObject nat
  | HostFunction nat
  | Handler cid
  | Proxy nat val cid
  | wrappedFunction nat val bool val val val
  | toPrimitiveFunction nat val

text \<open>\<^verbatim>\<open>typeof v === 'function'\<close>: a proxy is callable iff its target is.\<close>

fun is_function :: "val \<Rightarrow> bool" where
  "is_function (HostFunction _) = True"
| "is_function (wrappedFunction _ _ _ _ _ _) = True"
| "is_function (toPrimitiveFunction _ _) = True"
| "is_function (Proxy _ target _) = is_function target"
| "is_function _ = False"

section \<open>Computations: state and exceptions\<close>

text \<open>
  A computation runs in the state of the host (of an arbitrary type \<open>'h\<close>) extended by the
  counter from which function objects receive their identity, and either returns a value
  or throws one.
\<close>

record 'h state =
  host :: 'h
  next_id :: nat

datatype 'a completion = Return 'a | Throw val

type_synonym ('a, 'h) M = "'h state \<Rightarrow> 'a completion \<times> 'h state"

definition return :: "'a \<Rightarrow> ('a, 'h) M" where
  "return x = (\<lambda>s. (Return x, s))"

definition throw :: "val \<Rightarrow> ('a, 'h) M" where
  "throw e = (\<lambda>s. (Throw e, s))"

text \<open>Sequencing: an exception of the first computation ends the second before it starts.\<close>

definition seq :: "('a, 'h) M \<Rightarrow> ('a \<Rightarrow> ('b, 'h) M) \<Rightarrow> ('b, 'h) M" where
  "seq f g = (\<lambda>s. case f s of (Throw e, s') \<Rightarrow> (Throw e, s') | (Return x, s') \<Rightarrow> g x s')"

text \<open>Evaluating a function expression creates a function object with a fresh identity.\<close>

definition new_function :: "(nat, 'h) M" where
  "new_function = (\<lambda>s. (Return (next_id s), s\<lparr>next_id := Suc (next_id s)\<rparr>))"

text \<open>
  The operations of the host that the library calls.  \<open>GetV v k\<close> is the property read
  \<^verbatim>\<open>v[k]\<close> on a value that is neither \<^verbatim>\<open>null\<close> nor \<^verbatim>\<open>undefined\<close>; \<open>valueOf v\<close> is the
  method call \<^verbatim>\<open>v.valueOf()\<close>; \<open>host_apply f this args\<close> calls a function of the host;
  \<open>Reflect_hasOwnProperty n\<close> is the test
  \<^verbatim>\<open>Object.prototype.hasOwnProperty.call(Reflect, n)\<close> of line 220, made when the
  decorators run: whether the object \<^verbatim>\<open>Reflect\<close> of the host has, at that time, an own
  property of the name \<open>n\<close>.
\<close>

record 'h env =
  Reflect_get :: "val \<Rightarrow> val \<Rightarrow> val \<Rightarrow> (val, 'h) M"
  GetV :: "val \<Rightarrow> val \<Rightarrow> (val, 'h) M"
  Object_getPrototypeOf :: "val \<Rightarrow> (val, 'h) M"
  String_of :: "val \<Rightarrow> (val, 'h) M"
  Number_of :: "val \<Rightarrow> (val, 'h) M"
  valueOf :: "val \<Rightarrow> (val, 'h) M"
  host_apply :: "val \<Rightarrow> val \<Rightarrow> val list \<Rightarrow> (val, 'h) M"
  Reflect_hasOwnProperty :: "string \<Rightarrow> bool"

text \<open>The \<open>i\<close>-th actual argument of a call; a missing argument is \<^verbatim>\<open>undefined\<close>.\<close>

definition arg :: "val list \<Rightarrow> nat \<Rightarrow> val" where
  "arg args i = (if i < length args then args ! i else Undefined)"

text \<open>
  The property read \<^verbatim>\<open>v.k\<close> in the code of the library, on a value that is neither
  \<^verbatim>\<open>null\<close> nor \<^verbatim>\<open>undefined\<close>.  The \<^verbatim>\<open>name\<close> of a function object of the library is the
  one it was given (the arrow function of lines 123--132 is anonymous); every other read
  is the host's.
\<close>

definition get_property :: "'h env \<Rightarrow> val \<Rightarrow> val \<Rightarrow> (val, 'h) M" where
  "get_property E v k =
     (case v of
        wrappedFunction i name writable property receiver target \<Rightarrow>
          if k = JStr ''name'' then return name else GetV E v k
      | toPrimitiveFunction i target \<Rightarrow>
          if k = JStr ''name'' then return (JStr []) else GetV E v k
      | _ \<Rightarrow> GetV E v k)"

section \<open>The four layers that override \<open>get\<close>\<close>

text \<open>
  Each of them is a class expression \<^verbatim>\<open>class X extends superClass\<close> with one method
  \<^verbatim>\<open>get(target, p, receiver)\<close>.  The method is translated with the value of
  \<^verbatim>\<open>(super.get ?? Reflect.get)\<close> as the parameter \<open>super_get\<close>.
\<close>

text \<open>Lines 82--103.\<close>

definition TargetAsThis_get ::
  "'h env \<Rightarrow> (val \<Rightarrow> val \<Rightarrow> val \<Rightarrow> (val, 'h) M) \<Rightarrow> val \<Rightarrow> val \<Rightarrow> val \<Rightarrow> (val, 'h) M" where
  "TargetAsThis_get E super_get target p receiver =
     seq (super_get target p receiver) (\<lambda>property.
       if is_function property then
         seq new_function (\<lambda>i.
         seq (get_property E property (JStr ''name'')) (\<lambda>name.
           return (wrappedFunction i name False property receiver target)))
       else return property)"

text \<open>Lines 118--139.\<close>

definition DefaultToPrimitive_get ::
  "'h env \<Rightarrow> (val \<Rightarrow> val \<Rightarrow> val \<Rightarrow> (val, 'h) M) \<Rightarrow> val \<Rightarrow> val \<Rightarrow> val \<Rightarrow> (val, 'h) M" where
  "DefaultToPrimitive_get E super_get target p receiver =
     seq (super_get target p receiver) (\<lambda>property.
       if property = Undefined then
         (if p = JSym Symbol_toPrimitive then
            seq new_function (\<lambda>i. return (toPrimitiveFunction i target))
          else return property)
       else return property)"

text \<open>Lines 154--174.  \<^verbatim>\<open>prototype?.constructor\<close> reads nothing when the prototype is
  \<^verbatim>\<open>null\<close> or \<^verbatim>\<open>undefined\<close>.\<close>

definition DefaultToStringTag_get ::
  "'h env \<Rightarrow> (val \<Rightarrow> val \<Rightarrow> val \<Rightarrow> (val, 'h) M) \<Rightarrow> val \<Rightarrow> val \<Rightarrow> val \<Rightarrow> (val, 'h) M" where
  "DefaultToStringTag_get E super_get target p receiver =
     seq (super_get target p receiver) (\<lambda>property.
       if property = Undefined then
         (if p = JSym Symbol_toStringTag then
            seq (Object_getPrototypeOf E target) (\<lambda>prototype.
            seq (if prototype = Undefined \<or> prototype = Null then return Undefined
                 else get_property E prototype (JStr ''constructor'')) (\<lambda>constructor.
              if is_function constructor then get_property E constructor (JStr ''name'')
              else return Undefined))
          else return property)
       else return property)"

text \<open>Lines 198--205.\<close>

definition AllowGetTarget_get ::
  "'h env \<Rightarrow> (val \<Rightarrow> val \<Rightarrow> val \<Rightarrow> (val, 'h) M) \<Rightarrow> val \<Rightarrow> val \<Rightarrow> val \<Rightarrow> (val, 'h) M" where
  "AllowGetTarget_get E super_get target p receiver =
     (if p = JSym getTargetSymbol then return target
      else super_get target p receiver)"

section \<open>Calling a function object\<close>

text \<open>
  \<^verbatim>\<open>Reflect.apply(f, this, args)\<close>.  The body of \<open>wrappedFunction\<close> is lines 89--93, the
  body of the arrow function lines 124--131 (a hint that matches no \<^verbatim>\<open>case\<close> falls out of
  the \<^verbatim>\<open>switch\<close>, and the function returns \<^verbatim>\<open>undefined\<close>).  Calling what is not callable
  throws.
\<close>

fun Reflect_apply :: "'h env \<Rightarrow> val \<Rightarrow> val \<Rightarrow> val list \<Rightarrow> (val, 'h) M" where
  "Reflect_apply E (wrappedFunction i name w property receiver target) this argArray =
     Reflect_apply E property (if this = receiver then target else this) argArray"
| "Reflect_apply E (toPrimitiveFunction i target) this argArray =
     (let hint = arg argArray 0 in
      if hint = JStr ''string'' then String_of E target
      else if hint = JStr ''number'' then Number_of E target
      else if hint = JStr ''default'' then valueOf E target
      else return Undefined)"
| "Reflect_apply E (HostFunction n) this argArray = host_apply E (HostFunction n) this argArray"
| "Reflect_apply E (Proxy i target h) this argArray =
     (if is_function target then host_apply E (Proxy i target h) this argArray
      else throw TypeError)"
| "Reflect_apply E _ this argArray = throw TypeError"

section \<open>Handler classes\<close>

text \<open>
  A handler class has a superclass (or none) and the methods of its own prototype; the
  classes of the program form a table, and a class expression
  \<^verbatim>\<open>class X extends superClass\<close> adds an entry to it.  Every class of the table has a
  prototype object of its own, as every class written as a class expression or declaration
  has; a handler type whose prototype is the object \<^verbatim>\<open>Reflect\<close> of the host itself is not
  represented.  A method is

  \<^item> a method written by the user of the library (\<open>Host\<close>), which receives \<^verbatim>\<open>this\<close> and
    the argument list;
  \<^item> the method \<^verbatim>\<open>get\<close> of one of the four class expressions of the library, which
    remembers the class that \<^verbatim>\<open>super\<close> refers to;
  \<^item> the arrow function of lines 223--224, which captured \<^verbatim>\<open>mapper\<close> and
    \<^verbatim>\<open>originalValue\<close>.
\<close>

datatype layer_class =
  class_TargetAsThis | class_DefaultToPrimitive | class_DefaultToStringTag | class_AllowGetTarget

datatype 'h meth =
    Host "val \<Rightarrow> val list \<Rightarrow> (val, 'h) M"
  | get_of layer_class cid
  | Mapped_value "val \<Rightarrow> (val, 'h) M" "'h meth"

record 'h cls =
  superclass :: "cid option"
  methods :: "string \<Rightarrow> 'h meth option"

type_synonym 'h classes = "'h cls list"

text \<open>
  Property lookup along the prototype chain of a class.  Classes are numbered in the
  order of their creation, so a superclass has a smaller number than its subclasses; the
  test \<open>s < c\<close> is what makes the recursion terminate, and it never fails in a table built
  by class expressions (\<open>wf_classes\<close> below).
\<close>

function lookup :: "'h classes \<Rightarrow> cid \<Rightarrow> string \<Rightarrow> 'h meth option" where
  "lookup C c n =
     (if c < length C then
        (case methods (C ! c) n of
           Some m \<Rightarrow> Some m
         | None \<Rightarrow>
             (case superclass (C ! c) of
                None \<Rightarrow> None
              | Some s \<Rightarrow> if s < c then lookup C s n else None))
      else None)"
  by pat_completeness auto
termination
  by (relation "measure (\<lambda>(C, c, n). c)") auto

declare lookup.simps [simp del]

text \<open>The body of \<^verbatim>\<open>get\<close> in each of the four class expressions.\<close>

fun class_get ::
  "layer_class \<Rightarrow> 'h env \<Rightarrow> (val \<Rightarrow> val \<Rightarrow> val \<Rightarrow> (val, 'h) M) \<Rightarrow> val \<Rightarrow> val \<Rightarrow> val \<Rightarrow> (val, 'h) M" where
  "class_get class_TargetAsThis = TargetAsThis_get"
| "class_get class_DefaultToPrimitive = DefaultToPrimitive_get"
| "class_get class_DefaultToStringTag = DefaultToStringTag_get"
| "class_get class_AllowGetTarget = AllowGetTarget_get"

text \<open>
  The number of the class a method may look up from, plus one; zero for a method that
  never uses \<^verbatim>\<open>super\<close>.
\<close>

fun mrank :: "'h meth \<Rightarrow> nat" where
  "mrank (Host f) = 0"
| "mrank (get_of k s) = Suc s"
| "mrank (Mapped_value mapper originalValue) = mrank originalValue"

text \<open>
  Calling a method with \<^verbatim>\<open>this\<close> and an argument list.

  \<^item> \<^verbatim>\<open>(super.get ?? Reflect.get)(target, p, receiver)\<close> looks \<^verbatim>\<open>get\<close> up from the
    superclass when the call is made (so a later redefinition of an inherited method is
    seen), falls back to \<^verbatim>\<open>Reflect.get\<close>, and calls the function it found as a plain
    function: \<^verbatim>\<open>this\<close> is \<^verbatim>\<open>undefined\<close> there.
  \<^item> The arrow function of \<^verbatim>\<open>Mapped\<close> calls \<^verbatim>\<open>originalValue\<close> as a plain function as
    well, with \<^verbatim>\<open>mapper(target)\<close> in the place of its first argument and the remaining
    arguments as they are.

  The test \<open>mrank m \<le> s\<close> holds in every table built by class expressions; like the test
  in \<open>lookup\<close> it is there for termination only.
\<close>

function invoke :: "'h env \<Rightarrow> 'h classes \<Rightarrow> 'h meth \<Rightarrow> val \<Rightarrow> val list \<Rightarrow> (val, 'h) M" where
  "invoke E C (Host f) = (\<lambda>this args. f this args)"
| "invoke E C (get_of k s) =
     (\<lambda>this args.
        class_get k E
          (case lookup C s ''get'' of
             None \<Rightarrow> Reflect_get E
           | Some m \<Rightarrow>
               if mrank m \<le> s then (\<lambda>target p receiver. invoke E C m Undefined [target, p, receiver])
               else Reflect_get E)
          (arg args 0) (arg args 1) (arg args 2))"
| "invoke E C (Mapped_value mapper originalValue) =
     (\<lambda>this args.
        seq (mapper (arg args 0)) (\<lambda>target. invoke E C originalValue Undefined (target # tl args)))"
  by pat_completeness auto
termination
  by (relation "inv_image (less_than <*lex*> less_than) (\<lambda>(E, C, m). (mrank m, size m))") auto

section \<open>Proxies and \<open>getTarget\<close>\<close>

text \<open>
  The function the host finds under the name \<open>n\<close> on a handler that is an instance of
  the class \<open>h\<close>, if there is one.
\<close>

definition trap :: "'h env \<Rightarrow> 'h classes \<Rightarrow> cid \<Rightarrow> string \<Rightarrow> (val \<Rightarrow> val list \<Rightarrow> (val, 'h) M) option" where
  "trap E C h n = map_option (invoke E C) (lookup C h n)"

text \<open>
  The trap \<^verbatim>\<open>get\<close> of such a handler called with a given \<^verbatim>\<open>this\<close>; without a trap the
  read goes to the target.
\<close>

definition handler_get ::
  "'h env \<Rightarrow> 'h classes \<Rightarrow> cid \<Rightarrow> val \<Rightarrow> val \<Rightarrow> val \<Rightarrow> val \<Rightarrow> (val, 'h) M" where
  "handler_get E C h this target p receiver =
     (case trap E C h ''get'' of
        None \<Rightarrow> Reflect_get E target p receiver
      | Some f \<Rightarrow> f this [target, p, receiver])"

text \<open>
  The property read \<^verbatim>\<open>proxy[p]\<close> of the host, for a proxy whose handler is an instance
  of the class \<open>h\<close>: the trap is called with the handler as \<^verbatim>\<open>this\<close>.  (The host then
  rejects a result that differs from a non-configurable, non-writable own property of the
  target under the same key.  That check is left out: no object has an own property whose
  key is the module-private \<open>getTargetSymbol\<close>, and the targets of the examples have
  no such property.)
\<close>

definition Proxy_get :: "'h env \<Rightarrow> 'h classes \<Rightarrow> val \<Rightarrow> cid \<Rightarrow> val \<Rightarrow> val \<Rightarrow> (val, 'h) M" where
  "Proxy_get E C target h p receiver = handler_get E C h (Handler h) target p receiver"

text \<open>
  Lines 184--186: \<^verbatim>\<open>return maybeProxy[getTargetSymbol]\<close>.  Reading a property of
  \<^verbatim>\<open>null\<close> or \<^verbatim>\<open>undefined\<close> throws a \<^verbatim>\<open>TypeError\<close>.
\<close>

definition getTarget :: "'h env \<Rightarrow> 'h classes \<Rightarrow> val \<Rightarrow> (val, 'h) M" where
  "getTarget E C maybeProxy =
     (case maybeProxy of
        Undefined \<Rightarrow> throw TypeError
      | Null \<Rightarrow> throw TypeError
      | Proxy i target h \<Rightarrow> Proxy_get E C target h (JSym getTargetSymbol) maybeProxy
      | _ \<Rightarrow> GetV E maybeProxy (JSym getTargetSymbol))"

section \<open>The decorators\<close>

text \<open>
  The four functions of lines 75--105, 111--141, 147--176 and 191--207 return a class
  expression: a new class, whose superclass is the argument and whose only own method is
  \<^verbatim>\<open>get\<close>.
\<close>

definition extends :: "layer_class \<Rightarrow> cid \<Rightarrow> 'h classes \<Rightarrow> cid \<times> 'h classes" where
  "extends k superClass C =
     (length C,
      C @ [\<lparr>superclass = Some superClass,
             methods = (\<lambda>n. if n = ''get'' then Some (get_of k superClass) else None)\<rparr>])"

definition TargetAsThis :: "cid \<Rightarrow> 'h classes \<Rightarrow> cid \<times> 'h classes" where
  "TargetAsThis = extends class_TargetAsThis"

definition DefaultToPrimitive :: "cid \<Rightarrow> 'h classes \<Rightarrow> cid \<times> 'h classes" where
  "DefaultToPrimitive = extends class_DefaultToPrimitive"

definition DefaultToStringTag :: "cid \<Rightarrow> 'h classes \<Rightarrow> cid \<times> 'h classes" where
  "DefaultToStringTag = extends class_DefaultToStringTag"

definition AllowGetTarget :: "cid \<Rightarrow> 'h classes \<Rightarrow> cid \<times> 'h classes" where
  "AllowGetTarget = extends class_AllowGetTarget"

text \<open>
  Modelled from the spec: the own property names of the object \<^verbatim>\<open>Reflect\<close> in a host to
  which nothing was added.  The specification calls them ``the fixed set of operation
  names the host recognizes for proxy handlers'' and names \<^verbatim>\<open>get\<close>, \<^verbatim>\<open>set\<close>, \<^verbatim>\<open>has\<close>,
  \<^verbatim>\<open>deleteProperty\<close>, \<^verbatim>\<open>ownKeys\<close> and \<^verbatim>\<open>getPrototypeOf\<close>; the list is the thirteen
  functions of the ECMAScript standard, one for each trap of a proxy handler.  The code
  does not contain this list: it asks the host (\<open>Reflect_hasOwnProperty\<close>).  The list
  serves the examples.
\<close>

definition Reflect_keys :: "string list" where
  "Reflect_keys =
     [''apply'', ''construct'', ''defineProperty'', ''deleteProperty'', ''get'',
      ''getOwnPropertyDescriptor'', ''getPrototypeOf'', ''has'', ''isExtensible'',
      ''ownKeys'', ''preventExtensions'', ''set'', ''setPrototypeOf'']"

text \<open>
  The method decorator of lines 215--226, as a function from the descriptor's value to
  the value it leaves in the descriptor.  The test is made on the object \<^verbatim>\<open>Reflect\<close> as
  it is when the decorator runs.
\<close>

definition Mapped_decorator ::
  "'h env \<Rightarrow> (val \<Rightarrow> (val, 'h) M) \<Rightarrow> string \<Rightarrow> 'h meth \<Rightarrow> 'h meth" where
  "Mapped_decorator E mapper propertyKey originalValue =
     (if Reflect_hasOwnProperty E propertyKey then Mapped_value mapper originalValue
      else originalValue)"

text \<open>
  Modelled from the spec: \<^verbatim>\<open>DecorateAll\<close> is imported from the package
  \<^verbatim>\<open>decorate-all\<close> and its code is not among the sources.  With \<^verbatim>\<open>{ deep: true }\<close>
  it applies a method decorator to every method found on the prototype chain of the
  decorated class (the specification: the wrapping is synthesised ``for each one found on
  the base prototype chain''), the method \<^verbatim>\<open>constructor\<close> excepted, and defines the
  decorated descriptor as an own property of the prototype of the decorated class.  It
  returns nothing: \<^verbatim>\<open>Mapped\<close> is declared to return a function to \<^verbatim>\<open>void\<close> (line 213),
  that is a class decorator that keeps the class it is applied to, so what it does to a
  class it does to that class in place.  \<open>DecorateAll_deep decorator c C\<close> is the class
  table the decorator leaves.
\<close>

definition DecorateAll_deep :: "(string \<Rightarrow> 'h meth \<Rightarrow> 'h meth) \<Rightarrow> cid \<Rightarrow> 'h classes \<Rightarrow> 'h classes" where
  "DecorateAll_deep decorator c C =
     (if c < length C then
        C[c := (C ! c)\<lparr>methods :=
                (\<lambda>n. if n = ''constructor'' then methods (C ! c) n
                     else map_option (decorator n) (lookup C c n))\<rparr>]
      else C)"

text \<open>Lines 209--229.\<close>

definition Mapped :: "'h env \<Rightarrow> (val \<Rightarrow> (val, 'h) M) \<Rightarrow> cid \<Rightarrow> 'h classes \<Rightarrow> 'h classes" where
  "Mapped E mapper = DecorateAll_deep (Mapped_decorator E mapper)"

text \<open>
  The run of the decorator, as a computation.  The method decorator of lines 215--226
  makes the test of line 220 and, if it succeeds, assigns the arrow function to
  \<^verbatim>\<open>descriptor.value\<close>; it returns the value the descriptor then has.
\<close>

definition Mapped_decorator_run ::
  "'h env \<Rightarrow> (val \<Rightarrow> (val, 'h) M) \<Rightarrow> string \<Rightarrow> 'h meth \<Rightarrow> ('h meth, 'h) M" where
  "Mapped_decorator_run E mapper propertyKey originalValue =
     (if Reflect_hasOwnProperty E propertyKey then return (Mapped_value mapper originalValue)
      else return originalValue)"

text \<open>\<^verbatim>\<open>Object.defineProperty(target.prototype, propName, descriptor)\<close> on the class \<open>c\<close>.\<close>

definition defineProperty :: "cid \<Rightarrow> string \<Rightarrow> 'h meth \<Rightarrow> 'h classes \<Rightarrow> 'h classes" where
  "defineProperty c propName m T = T[c := (T ! c)\<lparr>methods := (methods (T ! c))(propName \<mapsto> m)\<rparr>]"

text \<open>
  Modelled from the spec: the loop of \<^verbatim>\<open>DecorateAll\<close> over the names \<open>propNames\<close> that
  the enumeration of the descriptors gives.  The descriptors are those found from the
  class \<open>c\<close> in the table \<open>C\<close> before the loop; \<open>T\<close> is the table the loop has made so far.
  For each method found (the method \<^verbatim>\<open>constructor\<close> excepted) the decorator runs, as a
  computation that may do whatever its code does, and the descriptor it leaves is defined
  on the class.  What \<^verbatim>\<open>DecorateAll\<close> does besides (it copies the metadata of the
  original function to the new one) calls no method of the class and is left out.
\<close>

fun DecorateAll_run ::
  "(string \<Rightarrow> 'h meth \<Rightarrow> ('h meth, 'h) M) \<Rightarrow> string list \<Rightarrow> cid \<Rightarrow> 'h classes \<Rightarrow> 'h classes \<Rightarrow>
   ('h classes, 'h) M" where
  "DecorateAll_run decorator [] c C T = return T"
| "DecorateAll_run decorator (propName # propNames) c C T =
     (case lookup C c propName of
        None \<Rightarrow> DecorateAll_run decorator propNames c C T
      | Some m \<Rightarrow>
          if propName = ''constructor'' then DecorateAll_run decorator propNames c C T
          else seq (decorator propName m)
                 (\<lambda>m'. DecorateAll_run decorator propNames c C (defineProperty c propName m' T)))"

definition Mapped_run ::
  "'h env \<Rightarrow> (val \<Rightarrow> (val, 'h) M) \<Rightarrow> string list \<Rightarrow> cid \<Rightarrow> 'h classes \<Rightarrow> ('h classes, 'h) M" where
  "Mapped_run E mapper propNames c C = DecorateAll_run (Mapped_decorator_run E mapper) propNames c C C"

text \<open>
  The value of \<^verbatim>\<open>(super.get ?? Reflect.get)\<close> inside a class whose superclass is \<open>s\<close>,
  as \<open>invoke\<close> computes it.
\<close>

definition super_get :: "'h env \<Rightarrow> 'h classes \<Rightarrow> cid \<Rightarrow> val \<Rightarrow> val \<Rightarrow> val \<Rightarrow> (val, 'h) M" where
  "super_get E C s =
     (case lookup C s ''get'' of
        None \<Rightarrow> Reflect_get E
      | Some m \<Rightarrow>
          if mrank m \<le> s then (\<lambda>target p receiver. invoke E C m Undefined [target, p, receiver])
          else Reflect_get E)"

text \<open>
  A stack of decorators, written as in the source with the outermost first:
  \<^verbatim>\<open>@A @B class H extends Base {}\<close> is \<open>decorated E [A, B] (H, C)\<close>, that is \<open>A (B H)\<close>.  A
  class decorator that returns nothing leaves the class it was applied to in its place.
\<close>

datatype 'h layer =
    Layer_TargetAsThis
  | Layer_DefaultToPrimitive
  | Layer_DefaultToStringTag
  | Layer_AllowGetTarget
  | Layer_Mapped "val \<Rightarrow> (val, 'h) M"

fun decorate :: "'h env \<Rightarrow> 'h layer \<Rightarrow> cid \<times> 'h classes \<Rightarrow> cid \<times> 'h classes" where
  "decorate E Layer_TargetAsThis (c, C) = TargetAsThis c C"
| "decorate E Layer_DefaultToPrimitive (c, C) = DefaultToPrimitive c C"
| "decorate E Layer_DefaultToStringTag (c, C) = DefaultToStringTag c C"
| "decorate E Layer_AllowGetTarget (c, C) = AllowGetTarget c C"
| "decorate E (Layer_Mapped mapper) (c, C) = (c, Mapped E mapper c C)"

definition decorated :: "'h env \<Rightarrow> 'h layer list \<Rightarrow> cid \<times> 'h classes \<Rightarrow> cid \<times> 'h classes" where
  "decorated E layers base = foldr (decorate E) layers base"

fun is_Mapped :: "'h layer \<Rightarrow> bool" where
  "is_Mapped (Layer_Mapped mapper) = True"
| "is_Mapped _ = False"

text \<open>
  \<open>Mapped\<close> wraps \<^verbatim>\<open>get\<close> on the class it is applied to if a method \<^verbatim>\<open>get\<close> is found
  from that class and \<^verbatim>\<open>Reflect\<close> has an own property of that name.
\<close>

definition wraps_get :: "'h env \<Rightarrow> cid \<times> 'h classes \<Rightarrow> bool" where
  "wraps_get E b = (Reflect_hasOwnProperty E ''get'' \<and> lookup (snd b) (fst b) ''get'' \<noteq> None)"

text \<open>
  The way of a read down a stack of layers that sits on the class \<open>b\<close>, for a key that
  no layer of the stack answers by itself: the \<^verbatim>\<open>this\<close> and the target with which the
  \<^verbatim>\<open>get\<close> of \<open>b\<close> is called.  A class of the library calls the \<^verbatim>\<open>get\<close> below it as a
  plain function and with the target it received; a \<open>Mapped\<close> that wraps \<^verbatim>\<open>get\<close> runs its
  mapper and calls the \<^verbatim>\<open>get\<close> below with the mapped target, also as a plain function; a
  \<open>Mapped\<close> that found no \<^verbatim>\<open>get\<close> to wrap changes nothing.
\<close>

fun passes_down ::
  "'h env \<Rightarrow> 'h layer list \<Rightarrow> cid \<times> 'h classes \<Rightarrow> val \<Rightarrow> val \<Rightarrow> (val \<times> val, 'h) M" where
  "passes_down E [] b this target = return (this, target)"
| "passes_down E (Layer_Mapped mapper # layers) b this target =
     (if wraps_get E (decorated E layers b) then
        seq (mapper target) (\<lambda>mapped. passes_down E layers b Undefined mapped)
      else passes_down E layers b this target)"
| "passes_down E (l # layers) b this target = passes_down E layers b Undefined target"

text \<open>
  Class tables as class expressions build them: a superclass was created before its
  subclasses, and a method of a class refers by \<^verbatim>\<open>super\<close> to a class created before it.
\<close>

definition wf_classes :: "'h classes \<Rightarrow> bool" where
  "wf_classes C =
     (\<forall>c<length C.
        (\<forall>s. superclass (C ! c) = Some s \<longrightarrow> s < c) \<and>
        (\<forall>n m. methods (C ! c) n = Some m \<longrightarrow> mrank m \<le> c))"


section \<open>An example program\<close>

text \<open>
  After the example of the module documentation (lines 40--63): the target is the array
  \<^verbatim>\<open>['hello', 'world']\<close>, and \<^verbatim>\<open>addBang\<close> counts its calls and returns the array
  \<^verbatim>\<open>['hello!', 'world!']\<close>.  The state of the host is that counter.  The objects of the
  example: the two arrays, \<^verbatim>\<open>Array.prototype\<close>, the function \<^verbatim>\<open>Array\<close>, the
  method \<^verbatim>\<open>valueOf\<close> the arrays inherit, which returns its \<^verbatim>\<open>this\<close>, and an object
  without properties and without prototype (\<^verbatim>\<open>Object.create(null)\<close>).  The example
  follows prototypes no further than \<^verbatim>\<open>Array.prototype\<close>.
\<close>

definition words :: val where "words = HostObject 0"
definition banged :: val where "banged = HostObject 1"
definition Array_prototype :: val where "Array_prototype = HostObject 2"
definition Array_constructor :: val where "Array_constructor = HostFunction 3"
definition Object_valueOf :: val where "Object_valueOf = HostFunction 4"
definition bare :: val where "bare = HostObject 5"

definition example_get :: "val \<Rightarrow> val \<Rightarrow> val" where
  "example_get target p =
     (if target = words then
        (if p = JStr ''0'' then JStr ''hello'' else if p = JStr ''1'' then JStr ''world''
         else if p = JStr ''valueOf'' then Object_valueOf else Undefined)
      else if target = banged then
        (if p = JStr ''0'' then JStr ''hello!'' else if p = JStr ''1'' then JStr ''world!''
         else if p = JStr ''valueOf'' then Object_valueOf else Undefined)
      else if target = Array_prototype then
        (if p = JStr ''constructor'' then Array_constructor
         else if p = JStr ''valueOf'' then Object_valueOf else Undefined)
      else if target = Array_constructor then
        (if p = JStr ''name'' then JStr ''Array'' else Undefined)
      else if target = Object_valueOf then
        (if p = JStr ''name'' then JStr ''valueOf'' else Undefined)
      else Undefined)"

text \<open>
  The numeric conversion is not used by the examples.  \<^verbatim>\<open>Reflect\<close> has the own
  properties of the standard.
\<close>

definition example_env :: "nat env" where
  "example_env =
     \<lparr>Reflect_get = (\<lambda>target p receiver. return (example_get target p)),
      GetV = (\<lambda>v p. return (example_get v p)),
      Object_getPrototypeOf =
        (\<lambda>v. return (if v = words \<or> v = banged then Array_prototype else Null)),
      String_of =
        (\<lambda>v. return (if v = words then JStr ''hello,world''
                      else if v = banged then JStr ''hello!,world!'' else JStr ''?'')),
      Number_of = (\<lambda>v. return (JNum 0)),
      valueOf = (\<lambda>v. return v),
      host_apply = (\<lambda>f this args. if f = Object_valueOf then return this else return Undefined),
      Reflect_hasOwnProperty = (\<lambda>n. n \<in> set Reflect_keys)\<rparr>"

definition addBang :: "val \<Rightarrow> (val, nat) M" where
  "addBang from =
     (\<lambda>s. (Return (if from = words then banged else from), s\<lparr>host := Suc (host s)\<rparr>))"

text \<open>
  The base handler of the examples is a class written for them (the class
  \<^verbatim>\<open>DefaultProxyHandler\<close> that the module documentation imports belongs to another
  package, and its code is not among the sources):
  \<^verbatim>\<open>class ExampleHandler { get(target, p, receiver) { return Reflect.get(target, p, receiver) }
  describe() { return 'default' } }\<close>.  \<open>describe\<close> is a method whose name is not the name
  of a trap.
\<close>

definition ExampleHandler :: "nat cls" where
  "ExampleHandler =
     \<lparr>superclass = None,
      methods =
        (\<lambda>n. if n = ''get'' then
                Some (Host (\<lambda>this args. Reflect_get example_env (arg args 0) (arg args 1) (arg args 2)))
             else if n = ''describe'' then Some (Host (\<lambda>this args. return (JStr ''default'')))
             else None)\<rparr>"

definition start :: "nat state" where
  "start = \<lparr>host = 0, next_id = 0\<rparr>"

text \<open>
  The class table after \<^verbatim>\<open>@TargetAsThis class ExampleHandler { ... }\<close>: the class
  \<open>ExampleHandler\<close>, number 0, and the class that \<open>TargetAsThis\<close> made from it, number 1.
\<close>

definition TwoClasses :: "nat classes" where
  "TwoClasses = snd (TargetAsThis 0 [ExampleHandler])"

text \<open>
  More handlers and environments for the examples: a class without methods
  (\<^verbatim>\<open>class Base {}\<close>), a handler that supplies a default for a missing property, a
  handler that answers the read of every key with the method \<^verbatim>\<open>valueOf\<close> of the target
  (\<^verbatim>\<open>get(target, p, receiver) { return Reflect.get(target, 'valueOf', receiver) }\<close>), a
  handler that refuses every read, and an environment in which \<^verbatim>\<open>Reflect.get\<close> on a
  proxy of the class table \<open>C\<close> runs the handler of that proxy, as the host does.
\<close>

definition EmptyHandler :: "nat cls" where
  "EmptyHandler = \<lparr>superclass = None, methods = (\<lambda>n. None)\<rparr>"

definition DefaultingHandler :: "nat cls" where
  "DefaultingHandler =
     \<lparr>superclass = None,
      methods =
        (\<lambda>n. if n = ''get'' then
                Some (Host (\<lambda>this args.
                  seq (Reflect_get example_env (arg args 0) (arg args 1) (arg args 2))
                    (\<lambda>v. return (if v = Undefined then JStr ''n/a'' else v))))
             else None)\<rparr>"


definition RefusingHandler :: "nat cls" where
  "RefusingHandler =
     \<lparr>superclass = None,
      methods = (\<lambda>n. if n = ''get'' then Some (Host (\<lambda>this args. throw TypeError)) else None)\<rparr>"

definition forwarding_env :: "nat classes \<Rightarrow> nat env" where
  "forwarding_env C =
     example_env\<lparr>Reflect_get :=
       (\<lambda>target p receiver.
          case target of
            Proxy i t h \<Rightarrow> Proxy_get example_env C t h p receiver
          | _ \<Rightarrow> Reflect_get example_env target p receiver)\<rparr>"

text \<open>
  A host in which a library has added functions to \<^verbatim>\<open>Reflect\<close>, as the package
  \<^verbatim>\<open>reflect-metadata\<close> does (\<^verbatim>\<open>Reflect.getMetadata\<close>, \<^verbatim>\<open>Reflect.defineMetadata\<close> and
  others), and a handler class with a method of one of those names:
  \<^verbatim>\<open>class MetadataHandler { getMetadata(target) { return target } }\<close>.
\<close>

definition metadata_env :: "nat env" where
  "metadata_env =
     example_env\<lparr>Reflect_hasOwnProperty :=
       (\<lambda>n. n \<in> set Reflect_keys \<or>
            n \<in> set [''decorate'', ''metadata'', ''defineMetadata'', ''hasMetadata'',
                      ''hasOwnMetadata'', ''getMetadata'', ''getOwnMetadata'',
                      ''getMetadataKeys'', ''getOwnMetadataKeys'', ''deleteMetadata''])\<rparr>"

definition MetadataHandler :: "nat cls" where
  "MetadataHandler =
     \<lparr>superclass = None,
      methods =
        (\<lambda>n. if n = ''getMetadata'' then Some (Host (\<lambda>this args. return (arg args 0)))
             else None)\<rparr>"

section \<open>Notions used in the statements\<close>

text \<open>
  The class a decorator of a stack adds, for the four decorators that add one.
\<close>

fun layer_class_of :: "'h layer \<Rightarrow> layer_class option" where
  "layer_class_of Layer_TargetAsThis = Some class_TargetAsThis"
| "layer_class_of Layer_DefaultToPrimitive = Some class_DefaultToPrimitive"
| "layer_class_of Layer_DefaultToStringTag = Some class_DefaultToStringTag"
| "layer_class_of Layer_AllowGetTarget = Some class_AllowGetTarget"
| "layer_class_of (Layer_Mapped mapper) = None"

text \<open>
  A handler of the class \<open>h\<close> answers a read of \<open>getTargetSymbol\<close> with the target it is
  given and does nothing else.
\<close>

definition answers_target :: "'h env \<Rightarrow> 'h classes \<Rightarrow> cid \<Rightarrow> val \<Rightarrow> bool" where
  "answers_target E C h target =
     (\<forall>this receiver s.
        handler_get E C h this target (JSym getTargetSymbol) receiver s = (Return target, s))"

text \<open>
  The \<^verbatim>\<open>get\<close> of the class \<open>k\<close> hands the value \<open>v\<close> it received from below for the key \<open>p\<close>
  on as it is.
\<close>

fun passes_up :: "layer_class \<Rightarrow> val \<Rightarrow> val \<Rightarrow> bool" where
  "passes_up class_TargetAsThis p v = (\<not> is_function v)"
| "passes_up class_DefaultToPrimitive p v = (v \<noteq> Undefined \<or> p \<noteq> JSym Symbol_toPrimitive)"
| "passes_up class_DefaultToStringTag p v = (v \<noteq> Undefined \<or> p \<noteq> JSym Symbol_toStringTag)"
| "passes_up class_AllowGetTarget p v = (p \<noteq> JSym getTargetSymbol)"

section \<open>Auxiliary facts\<close>

lemma seq_Return: "f s = (Return x, s') \<Longrightarrow> seq f g s = g x s'"
  by (simp add: seq_def)

lemma seq_Throw: "f s = (Throw e, s') \<Longrightarrow> seq f g s = (Throw e, s')"
  by (simp add: seq_def)

lemma invoke_get_of:
  "invoke E C (get_of k s) this args =
     class_get k E (super_get E C s) (arg args 0) (arg args 1) (arg args 2)"
  by (simp add: super_get_def)

lemma lookup_mrank:
  "wf_classes C \<Longrightarrow> lookup C c n = Some m \<Longrightarrow> mrank m \<le> c"
proof (induction C c n rule: lookup.induct)
  case (1 C c n)
  show ?case
  proof (cases "methods (C ! c) n")
    case (Some m')
    with "1.prems" show ?thesis
      by (auto simp add: lookup.simps [of C c n] wf_classes_def split: if_splits)
  next
    case None
    with "1.prems" obtain s where s: "c < length C" "superclass (C ! c) = Some s" "s < c"
      "lookup C s n = Some m"
      by (auto simp add: lookup.simps [of C c n] split: if_splits option.splits)
    with "1.IH" [OF s(1) None s(2) s(3)] "1.prems" show ?thesis by simp
  qed
qed

lemma take_Suc_less:
  assumes "take (Suc c) C = take (Suc c) C'" and "s < c"
  shows "take (Suc s) C = take (Suc s) C'"
proof -
  have "take (Suc s) (take (Suc c) C) = take (Suc s) (take (Suc c) C')"
    using assms(1) by simp
  with assms(2) show ?thesis by (simp add: min_def)
qed

lemma lookup_take:
  "take (Suc c) C = take (Suc c) C' \<Longrightarrow> lookup C c n = lookup C' c n"
proof (induction C c n rule: lookup.induct)
  case (1 C c n)
  from "1.prems" have "length (take (Suc c) C) = length (take (Suc c) C')" by simp
  then have len: "c < length C \<longleftrightarrow> c < length C'" by (auto simp add: min_def split: if_splits)
  show ?case
  proof (cases "c < length C")
    case False
    with len show ?thesis by (simp add: lookup.simps [of C c n] lookup.simps [of C' c n])
  next
    case True
    with len have c': "c < length C'" by simp
    have "take (Suc c) C ! c = take (Suc c) C' ! c" using "1.prems" by simp
    then have nth: "C ! c = C' ! c" by simp
    show ?thesis
    proof (cases "methods (C ! c) n")
      case (Some m)
      with True c' nth show ?thesis
        by (simp add: lookup.simps [of C c n] lookup.simps [of C' c n])
    next
      case None
      show ?thesis
      proof (cases "superclass (C ! c)")
        case None': None
        with None True c' nth show ?thesis
          by (simp add: lookup.simps [of C c n] lookup.simps [of C' c n])
      next
        case (Some s)
        show ?thesis
        proof (cases "s < c")
          case less: True
          have "lookup C s n = lookup C' s n"
            using "1.IH" [OF True None Some less] take_Suc_less [OF "1.prems" less] .
          with None Some less True c' nth show ?thesis
            by (simp add: lookup.simps [of C c n] lookup.simps [of C' c n])
        next
          case False
          with None Some True c' nth show ?thesis
            by (simp add: lookup.simps [of C c n] lookup.simps [of C' c n])
        qed
      qed
    qed
  qed
qed

lemma invoke_take:
  "take k C = take k C' \<Longrightarrow> mrank m \<le> k \<Longrightarrow> invoke E C m = invoke E C' m"
proof (induction E C m rule: invoke.induct)
  case (1 E C f)
  show ?case by simp
next
  case (2 E C kind s)
  from "2.prems" have sk: "Suc s \<le> k" by simp
  have "take (Suc s) (take k C) = take (Suc s) (take k C')" using "2.prems" by simp
  with sk have tk: "take (Suc s) C = take (Suc s) C'" by (simp add: min_def)
  have lk: "lookup C s ''get'' = lookup C' s ''get''" by (rule lookup_take [OF tk])
  have "super_get E C s = super_get E C' s"
  proof (cases "lookup C s ''get''")
    case None
    with lk show ?thesis by (simp add: super_get_def)
  next
    case (Some m')
    show ?thesis
    proof (cases "mrank m' \<le> s")
      case True
      with sk have "mrank m' \<le> k" by simp
      from "2.IH" [OF Some True "2.prems"(1) this] Some lk True show ?thesis
        by (simp add: super_get_def)
    next
      case False
      with Some lk show ?thesis by (simp add: super_get_def)
    qed
  qed
  then show ?case by (simp only: invoke_get_of)
next
  case (3 E C mapper originalValue)
  from "3.prems" have "invoke E C originalValue = invoke E C' originalValue"
    by (intro "3.IH") simp_all
  then show ?case by simp
qed


lemma lookup_append: "c < length C \<Longrightarrow> lookup (C @ xs) c n = lookup C c n"
  by (rule lookup_take) simp

lemma invoke_append: "mrank m \<le> length C \<Longrightarrow> invoke E (C @ xs) m = invoke E C m"
  by (rule invoke_take [of "length C"]) simp_all

lemma trap_append:
  assumes "wf_classes C" and "d < length C"
  shows "trap E (C @ xs) d n = trap E C d n"
proof (cases "lookup C d n")
  case None
  with assms show ?thesis by (simp add: trap_def lookup_append)
next
  case (Some m)
  with assms have "mrank m \<le> length C" using lookup_mrank [of C d n m] by simp
  with Some assms show ?thesis by (simp add: trap_def lookup_append invoke_append)
qed

lemma lookup_new_class:
  "lookup (C @ [\<lparr>superclass = Some c, methods = (\<lambda>n. if n = ''get'' then Some m else None)\<rparr>])
     (length C) ''get'' = Some m"
  by (simp add: lookup.simps [of _ "length C"])

lemma wf_classes_extends:
  assumes "wf_classes C" and "c < length C"
  shows "wf_classes (snd (extends k c C))"
  using assms by (auto simp add: wf_classes_def extends_def nth_append less_Suc_eq)

lemma mrank_Mapped_decorator: "mrank (Mapped_decorator E mapper n m) = mrank m"
  by (simp add: Mapped_decorator_def)

lemma length_Mapped: "length (Mapped E mapper c C) = length C"
  by (simp add: Mapped_def DecorateAll_deep_def)

lemma nth_Mapped_other: "d \<noteq> c \<Longrightarrow> Mapped E mapper c C ! d = C ! d"
  by (simp add: Mapped_def DecorateAll_deep_def)

lemma take_Mapped: "k \<le> c \<Longrightarrow> take k (Mapped E mapper c C) = take k C"
  by (simp add: Mapped_def DecorateAll_deep_def)

lemma lookup_Mapped_below: "d < c \<Longrightarrow> lookup (Mapped E mapper c C) d n = lookup C d n"
  by (rule lookup_take) (simp add: take_Mapped)

lemma invoke_Mapped_below: "mrank m \<le> c \<Longrightarrow> invoke E (Mapped E mapper c C) m = invoke E C m"
  by (rule invoke_take [of c]) (simp_all add: take_Mapped)

lemma superclass_Mapped: "superclass (Mapped E mapper c C ! d) = superclass (C ! d)"
  by (cases "d = c") (simp_all add: Mapped_def DecorateAll_deep_def)

lemma methods_Mapped:
  "c < length C \<Longrightarrow>
   methods (Mapped E mapper c C ! c) n =
     (if n = ''constructor'' then methods (C ! c) n
      else map_option (Mapped_decorator E mapper n) (lookup C c n))"
  by (simp add: Mapped_def DecorateAll_deep_def)

lemma lookup_Mapped_self:
  assumes "c < length C" and "n \<noteq> ''constructor''"
  shows "lookup (Mapped E mapper c C) c n = map_option (Mapped_decorator E mapper n) (lookup C c n)"
proof (cases "lookup C c n")
  case (Some m)
  with assms show ?thesis
    by (simp add: lookup.simps [of "Mapped E mapper c C" c n] length_Mapped methods_Mapped)
next
  case None
  with assms have own: "methods (C ! c) n = None"
    by (simp add: lookup.simps [of C c n] split: option.splits)
  show ?thesis
  proof (cases "superclass (C ! c)")
    case none: None
    with None assms show ?thesis
      by (simp add: lookup.simps [of "Mapped E mapper c C" c n] length_Mapped methods_Mapped
          superclass_Mapped)
  next
    case (Some s)
    with None own assms have "s < c \<longrightarrow> lookup C s n = None"
      by (auto simp add: lookup.simps [of C c n] split: if_splits)
    with Some None assms show ?thesis
      by (simp add: lookup.simps [of "Mapped E mapper c C" c n] length_Mapped methods_Mapped
          superclass_Mapped lookup_Mapped_below)
  qed
qed

lemma lookup_Mapped_constructor:
  assumes "c < length C"
  shows "lookup (Mapped E mapper c C) c ''constructor'' = lookup C c ''constructor''"
  using assms
  by (simp add: lookup.simps [of "Mapped E mapper c C" c] lookup.simps [of C c] length_Mapped
      methods_Mapped superclass_Mapped lookup_Mapped_below split: option.splits)

lemma wf_classes_Mapped:
  assumes "wf_classes C"
  shows "wf_classes (Mapped E mapper c C)"
proof (cases "c < length C")
  case False
  with assms show ?thesis by (simp add: Mapped_def DecorateAll_deep_def)
next
  case True
  show ?thesis
    unfolding wf_classes_def
  proof (intro allI impI conjI)
    fix d s
    assume "d < length (Mapped E mapper c C)" and "superclass (Mapped E mapper c C ! d) = Some s"
    with assms show "s < d" by (simp add: wf_classes_def length_Mapped superclass_Mapped)
  next
    fix d n m
    assume d: "d < length (Mapped E mapper c C)" and m: "methods (Mapped E mapper c C ! d) n = Some m"
    show "mrank m \<le> d"
    proof (cases "d = c")
      case False
      with d m assms show ?thesis by (simp add: wf_classes_def length_Mapped nth_Mapped_other)
    next
      case same: True
      show ?thesis
      proof (cases "n = ''constructor''")
        case True
        with same d m assms \<open>c < length C\<close> show ?thesis
          by (simp add: wf_classes_def methods_Mapped)
      next
        case False
        with same m \<open>c < length C\<close> obtain m0 where
          "lookup C c n = Some m0" and "m = Mapped_decorator E mapper n m0"
          by (auto simp add: methods_Mapped)
        with same assms show ?thesis
          using lookup_mrank [of C c n m0] by (simp add: mrank_Mapped_decorator)
      qed
    qed
  qed
qed

lemma decorate_wf:
  assumes "wf_classes C" and "c < length C" and "decorate E l (c, C) = (c', C')"
  shows "wf_classes C' \<and> c' < length C'"
proof (cases l)
  case (Layer_Mapped mapper)
  with assms show ?thesis by (auto simp add: wf_classes_Mapped length_Mapped)
next
  case Layer_TargetAsThis
  with assms wf_classes_extends [OF assms(1,2), of class_TargetAsThis] show ?thesis
    by (auto simp add: TargetAsThis_def extends_def)
next
  case Layer_DefaultToPrimitive
  with assms wf_classes_extends [OF assms(1,2), of class_DefaultToPrimitive] show ?thesis
    by (auto simp add: DefaultToPrimitive_def extends_def)
next
  case Layer_DefaultToStringTag
  with assms wf_classes_extends [OF assms(1,2), of class_DefaultToStringTag] show ?thesis
    by (auto simp add: DefaultToStringTag_def extends_def)
next
  case Layer_AllowGetTarget
  with assms wf_classes_extends [OF assms(1,2), of class_AllowGetTarget] show ?thesis
    by (auto simp add: AllowGetTarget_def extends_def)
qed

lemma decorated_wf:
  assumes "wf_classes C" and "c < length C"
  shows "decorated E ls (c, C) = (c', C') \<Longrightarrow> wf_classes C' \<and> c' < length C'"
proof (induction ls arbitrary: c' C')
  case Nil
  with assms show ?case by (simp add: decorated_def)
next
  case (Cons l ls)
  obtain c1 C1 where mid: "decorated E ls (c, C) = (c1, C1)" by (cases "decorated E ls (c, C)")
  with Cons.prems have "decorate E l (c1, C1) = (c', C')" by (simp add: decorated_def)
  with Cons.IH [OF mid] show ?case using decorate_wf by blast
qed

lemma super_get_handler_get:
  assumes "wf_classes C"
  shows "super_get E C c target p receiver = handler_get E C c Undefined target p receiver"
proof (cases "lookup C c ''get''")
  case None
  then show ?thesis by (simp add: super_get_def handler_get_def trap_def)
next
  case (Some m)
  with assms have "mrank m \<le> c" by (rule lookup_mrank)
  with Some show ?thesis by (simp add: super_get_def handler_get_def trap_def)
qed

lemma handler_get_extends:
  assumes "wf_classes C" and "c < length C"
  shows "handler_get E (snd (extends k c C)) (fst (extends k c C)) this target p receiver =
         class_get k E (handler_get E C c Undefined) target p receiver"
proof -
  let ?C' = "snd (extends k c C)"
  have lk: "lookup ?C' (length C) ''get'' = Some (get_of k c)"
    by (simp add: extends_def lookup_new_class)
  have "trap E ?C' c ''get'' = trap E C c ''get''"
    using assms by (simp add: extends_def trap_append)
  then have "handler_get E ?C' c Undefined = handler_get E C c Undefined"
    by (intro ext) (simp add: handler_get_def)
  moreover have "wf_classes ?C'" using assms by (rule wf_classes_extends)
  then have "super_get E ?C' c = handler_get E ?C' c Undefined"
    by (intro ext) (simp add: super_get_handler_get)
  ultimately have "super_get E ?C' c = handler_get E C c Undefined" by simp
  with lk show ?thesis
    by (simp add: handler_get_def trap_def extends_def invoke_get_of arg_def del: invoke.simps)
qed


lemma handler_get_Mapped:
  assumes "wf_classes C" and "c < length C"
  shows "handler_get E (Mapped E mapper c C) c this target p receiver =
         (if wraps_get E (c, C) then
            seq (mapper target) (\<lambda>t. handler_get E C c Undefined t p receiver)
          else handler_get E C c this target p receiver)"
proof (cases "lookup C c ''get''")
  case None
  with assms show ?thesis
    by (simp add: handler_get_def trap_def lookup_Mapped_self wraps_get_def)
next
  case (Some m)
  with assms have "mrank m \<le> c" using lookup_mrank [of C c "''get''" m] by simp
  then have "invoke E (Mapped E mapper c C) m = invoke E C m" by (rule invoke_Mapped_below)
  with Some assms show ?thesis
    by (simp add: handler_get_def trap_def lookup_Mapped_self Mapped_decorator_def
        wraps_get_def arg_def)
qed

lemma class_get_passes_target:
  assumes "base_get target p receiver s = (Return target, s)" and "target \<noteq> Undefined"
    and "k = class_TargetAsThis \<longrightarrow> \<not> is_function target"
  shows "class_get k E base_get target p receiver s = (Return target, s)"
  using assms
  by (cases k)
    (simp_all add: TargetAsThis_get_def DefaultToPrimitive_get_def DefaultToStringTag_get_def
      AllowGetTarget_def AllowGetTarget_get_def seq_def return_def)

lemma class_get_passes:
  assumes "base_get target p receiver s = (Return v, s')" and "passes_up k p v"
  shows "class_get k E base_get target p receiver s = (Return v, s')"
  using assms
  by (cases k)
    (auto simp add: TargetAsThis_get_def DefaultToPrimitive_get_def DefaultToStringTag_get_def
      AllowGetTarget_get_def seq_def return_def)

lemma decorate_extends:
  "layer_class_of l = Some k \<Longrightarrow> decorate E l (c, C) = extends k c C"
  by (cases l)
    (auto simp add: TargetAsThis_def DefaultToPrimitive_def DefaultToStringTag_def
      AllowGetTarget_def)

lemma answers_target_AllowGetTarget:
  assumes "wf_classes C" and "c < length C"
  shows "answers_target E (snd (AllowGetTarget c C)) (fst (AllowGetTarget c C)) target"
  using assms
  by (simp add: answers_target_def AllowGetTarget_def handler_get_extends AllowGetTarget_get_def
      return_def)

lemma answers_target_decorate:
  assumes "wf_classes C" and "c < length C" and "answers_target E C c target"
    and "target \<noteq> Undefined" and "\<not> is_Mapped l"
    and "l = Layer_TargetAsThis \<longrightarrow> \<not> is_function target"
    and "decorate E l (c, C) = (c', C')"
  shows "answers_target E C' c' target"
proof -
  from \<open>\<not> is_Mapped l\<close> obtain k where k: "layer_class_of l = Some k" by (cases l) auto
  with assms(7) have ext: "extends k c C = (c', C')" by (simp add: decorate_extends)
  from k assms(6) have tat: "k = class_TargetAsThis \<longrightarrow> \<not> is_function target"
    by (cases l) auto
  have "handler_get E C' c' this target (JSym getTargetSymbol) receiver s = (Return target, s)"
    for this receiver s
  proof -
    have "handler_get E C c Undefined target (JSym getTargetSymbol) receiver s = (Return target, s)"
      using assms(3) by (simp add: answers_target_def)
    then have "class_get k E (handler_get E C c Undefined) target (JSym getTargetSymbol) receiver s
               = (Return target, s)"
      using assms(4) tat by (rule class_get_passes_target)
    with handler_get_extends [OF assms(1,2), of E k this target "JSym getTargetSymbol" receiver] ext
    show ?thesis by simp
  qed
  then show ?thesis by (simp add: answers_target_def)
qed

lemma answers_target_decorated:
  assumes "wf_classes C" and "c < length C" and "answers_target E C c target"
    and "target \<noteq> Undefined"
  shows "decorated E outer (c, C) = (h, C') \<Longrightarrow> \<forall>l\<in>set outer. \<not> is_Mapped l \<Longrightarrow>
         Layer_TargetAsThis \<in> set outer \<longrightarrow> \<not> is_function target \<Longrightarrow>
         answers_target E C' h target"
proof (induction outer arbitrary: h C')
  case Nil
  with assms show ?case by (simp add: decorated_def)
next
  case (Cons l outer)
  obtain c1 C1 where mid: "decorated E outer (c, C) = (c1, C1)"
    by (cases "decorated E outer (c, C)")
  with Cons.prems have step: "decorate E l (c1, C1) = (h, C')" by (simp add: decorated_def)
  from mid assms have wf1: "wf_classes C1" "c1 < length C1" using decorated_wf by blast+
  from Cons.prems have nm: "\<not> is_Mapped l" by simp
  from Cons.prems have tat: "l = Layer_TargetAsThis \<longrightarrow> \<not> is_function target" by auto
  from Cons.IH [OF mid] Cons.prems have "answers_target E C1 c1 target" by simp
  from wf1 this assms(4) nm tat step show ?case by (rule answers_target_decorate)
qed

lemma decorated_append: "decorated E (xs @ ys) b = decorated E xs (decorated E ys b)"
  by (simp add: decorated_def)

lemma seq_ReturnD:
  assumes "seq f g s = (Return y, s')"
  shows "\<exists>x sm. f s = (Return x, sm) \<and> g x sm = (Return y, s')"
proof (cases "f s")
  case (Pair r sm)
  with assms show ?thesis by (cases r) (simp_all add: seq_def)
qed

text \<open>
  A read through a stack of layers: if the read arrives at the class below the stack with
  the \<^verbatim>\<open>this\<close> and the target that \<open>passes_down\<close> computes, the class below answers with
  \<open>v\<close>, and every class of the stack hands \<open>v\<close> on, then the read through the stack returns
  \<open>v\<close>.
\<close>

lemma handler_get_decorated:
  assumes "wf_classes C" and "c < length C"
  shows "decorated E ls (c, C) = (h, C') \<Longrightarrow>
         passes_down E ls (c, C) this target s = (Return (this', t), sa) \<Longrightarrow>
         handler_get E C c this' t p receiver sa = (Return v, sb) \<Longrightarrow>
         \<forall>l\<in>set ls. \<forall>k. layer_class_of l = Some k \<longrightarrow> passes_up k p v \<Longrightarrow>
         handler_get E C' h this target p receiver s = (Return v, sb)"
proof (induction ls arbitrary: h C' this target s)
  case Nil
  then show ?case by (simp add: decorated_def return_def)
next
  case (Cons l ls)
  obtain c1 C1 where mid: "decorated E ls (c, C) = (c1, C1)"
    by (cases "decorated E ls (c, C)")
  with Cons.prems(1) have step: "decorate E l (c1, C1) = (h, C')" by (simp add: decorated_def)
  from mid assms have wf1: "wf_classes C1" "c1 < length C1" using decorated_wf by blast+
  from Cons.prems(4) have up: "\<forall>l\<in>set ls. \<forall>k. layer_class_of l = Some k \<longrightarrow> passes_up k p v"
    by simp
  show ?case
  proof (cases "layer_class_of l")
    case (Some k)
    with step have ext: "extends k c1 C1 = (h, C')" by (simp add: decorate_extends)
    from Some have "passes_down E (l # ls) (c, C) this target = passes_down E ls (c, C) Undefined target"
      by (cases l) simp_all
    with Cons.prems(2) have "passes_down E ls (c, C) Undefined target s = (Return (this', t), sa)"
      by simp
    from Cons.IH [OF mid this Cons.prems(3) up]
    have "handler_get E C1 c1 Undefined target p receiver s = (Return v, sb)" .
    moreover from Some Cons.prems(4) have "passes_up k p v" by simp
    ultimately have "class_get k E (handler_get E C1 c1 Undefined) target p receiver s = (Return v, sb)"
      by (rule class_get_passes)
    with handler_get_extends [OF wf1, of E k this target p receiver] ext show ?thesis by simp
  next
    case None
    then obtain mapper where l: "l = Layer_Mapped mapper" by (cases l) auto
    with step have eq: "h = c1" "C' = Mapped E mapper c1 C1" by auto
    show ?thesis
    proof (cases "wraps_get E (c1, C1)")
      case True
      with l mid Cons.prems(2)
      have "seq (mapper target) (\<lambda>mapped. passes_down E ls (c, C) Undefined mapped) s =
              (Return (this', t), sa)"
        by simp
      from seq_ReturnD [of "mapper target" "passes_down E ls (c, C) Undefined" s "(this', t)" sa,
          OF this]
      obtain mapped sm where m: "mapper target s = (Return mapped, sm)"
        and down: "passes_down E ls (c, C) Undefined mapped sm = (Return (this', t), sa)"
        by auto
      from Cons.IH [OF mid down Cons.prems(3) up]
      have "handler_get E C1 c1 Undefined mapped p receiver sm = (Return v, sb)" .
      with True m eq show ?thesis by (simp add: handler_get_Mapped [OF wf1] seq_def)
    next
      case False
      with l mid Cons.prems(2)
      have "passes_down E ls (c, C) this target s = (Return (this', t), sa)" by simp
      from Cons.IH [OF mid this Cons.prems(3) up]
      have "handler_get E C1 c1 this target p receiver s = (Return v, sb)" .
      with False eq show ?thesis by (simp add: handler_get_Mapped [OF wf1])
    qed
  qed
qed




text \<open>
  The loop of \<^verbatim>\<open>DecorateAll\<close> with a decorator that only computes a value: it changes
  nothing but the class table, and what it leaves is the table \<open>DecorateAll_deep\<close>
  describes.
\<close>

lemma DecorateAll_run_state:
  "snd (DecorateAll_run (\<lambda>n m. return (d n m)) ns c C T s) = s"
  by (induction ns arbitrary: T) (simp_all add: seq_def return_def split: option.splits)

lemma DecorateAll_run_table:
  assumes "c < length C"
  shows "DecorateAll_run (\<lambda>n m. return (d n m)) ns c C (C[c := (C ! c)\<lparr>methods := g\<rparr>]) s =
           (Return (C[c := (C ! c)\<lparr>methods :=
                      (\<lambda>n. if n \<in> set ns \<and> n \<noteq> ''constructor'' \<and> lookup C c n \<noteq> None
                           then map_option (d n) (lookup C c n) else g n)\<rparr>]), s)"
    (is "?run ns (?tab g) s = (Return (?tab (?new ns g)), s)")
proof (induction ns arbitrary: g)
  case Nil
  show ?case by (simp add: return_def)
next
  case (Cons a ns)
  show ?case
  proof (cases "lookup C c a = None \<or> a = ''constructor''")
    case True
    then have "?run (a # ns) (?tab g) s = ?run ns (?tab g) s"
      by (auto split: option.splits)
    also have "\<dots> = (Return (?tab (?new ns g)), s)" by (rule Cons.IH)
    also from True have "?new ns g = ?new (a # ns) g" by (auto simp add: fun_eq_iff)
    finally show ?thesis .
  next
    case False
    then obtain m where m: "lookup C c a = Some m" and a: "a \<noteq> ''constructor''" by auto
    have tab: "defineProperty c a (d a m) (?tab g) = ?tab (g(a \<mapsto> d a m))"
      using assms by (simp add: defineProperty_def fun_upd_def)
    from m a have "?run (a # ns) (?tab g) s = ?run ns (defineProperty c a (d a m) (?tab g)) s"
      by (simp add: seq_def return_def)
    also have "\<dots> = ?run ns (?tab (g(a \<mapsto> d a m))) s" by (simp only: tab)
    also have "\<dots> = (Return (?tab (?new ns (g(a \<mapsto> d a m)))), s)" by (rule Cons.IH)
    also from m a have "?new ns (g(a \<mapsto> d a m)) = ?new (a # ns) g"
      by (auto simp add: fun_eq_iff)
    finally show ?thesis .
  qed
qed

lemma Mapped_decorator_run_return:
  "Mapped_decorator_run E mapper = (\<lambda>n m. return (Mapped_decorator E mapper n m))"
  by (intro ext) (simp add: Mapped_decorator_run_def Mapped_decorator_def)

lemma lookup_None_own:
  "c < length C \<Longrightarrow> lookup C c n = None \<Longrightarrow> methods (C ! c) n = None"
  by (simp add: lookup.simps [of C c n] split: option.splits)

lemma Mapped_run_state: "snd (Mapped_run E mapper propNames c C s) = s"
  by (simp add: Mapped_run_def Mapped_decorator_run_return DecorateAll_run_state)

lemma Mapped_run_table:
  assumes "c < length C" and "\<forall>n. lookup C c n \<noteq> None \<longrightarrow> n \<in> set propNames"
  shows "Mapped_run E mapper propNames c C s = (Return (Mapped E mapper c C), s)"
proof -
  let ?d = "Mapped_decorator E mapper"
  have "(\<lambda>n. if n \<in> set propNames \<and> n \<noteq> ''constructor'' \<and> lookup C c n \<noteq> None
             then map_option (?d n) (lookup C c n) else methods (C ! c) n) =
        (\<lambda>n. if n = ''constructor'' then methods (C ! c) n
             else map_option (?d n) (lookup C c n))"
  proof
    fix n
    show "(if n \<in> set propNames \<and> n \<noteq> ''constructor'' \<and> lookup C c n \<noteq> None
           then map_option (?d n) (lookup C c n) else methods (C ! c) n) =
          (if n = ''constructor'' then methods (C ! c) n else map_option (?d n) (lookup C c n))"
    proof (cases "lookup C c n")
      case None
      with assms(1) have "methods (C ! c) n = None" by (simp add: lookup_None_own)
      with None show ?thesis by auto
    next
      case (Some m)
      with assms(2) have "n \<in> set propNames" by auto
      with Some show ?thesis by simp
    qed
  qed
  moreover have "C[c := (C ! c)\<lparr>methods := methods (C ! c)\<rparr>] = C" by simp
  ultimately show ?thesis
    using DecorateAll_run_table [OF assms(1), of ?d propNames "methods (C ! c)" s] assms(1)
    by (simp add: Mapped_run_def Mapped_decorator_run_return Mapped_def DecorateAll_deep_def)
qed

lemma Mapped_value_neq: "Mapped_value mapper m \<noteq> m"
  by (induction m) simp_all

lemma lookup_own:
  "c < length C \<Longrightarrow> methods (C ! c) n = Some m \<Longrightarrow> lookup C c n = Some m"
  by (simp add: lookup.simps [of C c n])

lemma Mapped_changes_entry:
  assumes "c < length C" and "lookup C c n = Some m" and "Reflect_hasOwnProperty E n"
    and "n \<noteq> ''constructor''"
  shows "Mapped E mapper c C ! c \<noteq> C ! c"
proof
  assume "Mapped E mapper c C ! c = C ! c"
  then have "methods (Mapped E mapper c C ! c) n = methods (C ! c) n" by simp
  with assms have own: "methods (C ! c) n = Some (Mapped_value mapper m)"
    by (simp add: methods_Mapped Mapped_decorator_def)
  with assms(1) have "lookup C c n = Some (Mapped_value mapper m)" by (rule lookup_own)
  with assms(2) show False by (simp add: Mapped_value_neq)
qed

section \<open>The claims\<close>

lemmas run_simps =
  decorated_def TargetAsThis_def DefaultToPrimitive_def DefaultToStringTag_def AllowGetTarget_def
  extends_def Mapped_def DecorateAll_deep_def Mapped_decorator_def Reflect_keys_def
  getTarget_def Proxy_get_def handler_get_def trap_def lookup.simps wraps_get_def
  TargetAsThis_get_def DefaultToPrimitive_get_def DefaultToStringTag_get_def AllowGetTarget_get_def
  arg_def seq_def return_def throw_def new_function_def get_property_def
  example_env_def example_get_def addBang_def ExampleHandler_def start_def
  words_def banged_def Array_prototype_def Array_constructor_def Object_valueOf_def bare_def

lemma wf_classes_ExampleHandler: "wf_classes [ExampleHandler]"
  by (simp add: wf_classes_def ExampleHandler_def)

lemma wf_classes_TwoClasses: "wf_classes TwoClasses"
  unfolding TwoClasses_def TargetAsThis_def
  by (rule wf_classes_extends [OF wf_classes_ExampleHandler]) simp

subsection \<open>C1: \<open>getTarget\<close> on a stack with \<open>AllowGetTarget\<close>\<close>

text \<open>
  Claim C1 says that \<open>getTarget\<close> returns the original target for every ordering of the
  layers that includes \<open>AllowGetTarget\<close>, whatever is stacked above or below it.  That fails
  for two orderings.  With \<^verbatim>\<open>@Mapped(addBang) @AllowGetTarget\<close> the arrow function of
  \<open>Mapped\<close> hands \<^verbatim>\<open>mapper(target)\<close> to the \<^verbatim>\<open>get\<close> of \<open>AllowGetTarget\<close>, which returns that
  mapped array.  With \<^verbatim>\<open>@TargetAsThis @AllowGetTarget\<close> and a target that is a function,
  \<open>TargetAsThis\<close> wraps the target it receives from below.
\<close>

theorem getTarget_under_outer_layer_counterexample:
  "fst (getTarget example_env
          (snd (decorated example_env [Layer_Mapped addBang, Layer_AllowGetTarget] (0, [ExampleHandler])))
          (Proxy 0 words
             (fst (decorated example_env [Layer_Mapped addBang, Layer_AllowGetTarget] (0, [ExampleHandler]))))
          start) = Return banged
   \<and> banged \<noteq> words
   \<and> fst (getTarget example_env
          (snd (decorated example_env [Layer_TargetAsThis, Layer_AllowGetTarget] (0, [ExampleHandler])))
          (Proxy 0 Object_valueOf
             (fst (decorated example_env [Layer_TargetAsThis, Layer_AllowGetTarget] (0, [ExampleHandler]))))
          start) \<noteq> Return Object_valueOf"
  by (simp add: run_simps)

text \<open>
  Claim C1, amended: for every target object and every stack that includes
  \<open>AllowGetTarget\<close>, with any layers below it, with no \<open>Mapped\<close> layer above it, and with
  \<open>TargetAsThis\<close> above it only if the target is not callable, \<open>getTarget\<close> applied to the
  proxy returns exactly the target, and changes nothing.  (The target of a proxy is an
  object, hence not \<^verbatim>\<open>undefined\<close>.)
\<close>

theorem getTarget_returns_target:
  assumes "wf_classes C" and "base < length C"
    and "decorated E (outer @ Layer_AllowGetTarget # inner) (base, C) = (h, C')"
    and "\<forall>l\<in>set outer. \<not> is_Mapped l"
    and "Layer_TargetAsThis \<in> set outer \<longrightarrow> \<not> is_function target"
    and "target \<noteq> Undefined"
  shows "getTarget E C' (Proxy i target h) s = (Return target, s)"
proof -
  obtain c0 C0 where inner: "decorated E inner (base, C) = (c0, C0)"
    by (cases "decorated E inner (base, C)")
  with assms(1,2) have wf0: "wf_classes C0" "c0 < length C0" using decorated_wf by blast+
  obtain c1 C1 where agt: "AllowGetTarget c0 C0 = (c1, C1)" by (cases "AllowGetTarget c0 C0")
  with wf0 have wf1: "wf_classes C1" "c1 < length C1"
    using decorate_wf [of C0 c0 E Layer_AllowGetTarget c1 C1] by simp_all
  from answers_target_AllowGetTarget [OF wf0, of E target] agt
  have a1: "answers_target E C1 c1 target" by simp
  from assms(3) inner agt have "decorated E outer (c1, C1) = (h, C')"
    by (simp add: decorated_append) (simp add: decorated_def)
  from answers_target_decorated [OF wf1 a1 assms(6) this assms(4,5)]
  show ?thesis by (simp add: getTarget_def Proxy_get_def answers_target_def)
qed

theorem getTarget_returns_target_witness:
  "getTarget example_env
     (snd (decorated example_env [Layer_DefaultToStringTag, Layer_TargetAsThis, Layer_AllowGetTarget,
                      Layer_Mapped addBang, Layer_DefaultToPrimitive] (0, [ExampleHandler])))
     (Proxy 0 words
        (fst (decorated example_env [Layer_DefaultToStringTag, Layer_TargetAsThis, Layer_AllowGetTarget,
                         Layer_Mapped addBang, Layer_DefaultToPrimitive] (0, [ExampleHandler]))))
     start = (Return words, start)"
proof -
  let ?outer = "[Layer_DefaultToStringTag, Layer_TargetAsThis] :: nat layer list"
  let ?inner = "[Layer_Mapped addBang, Layer_DefaultToPrimitive]"
  let ?D = "decorated example_env (?outer @ Layer_AllowGetTarget # ?inner) (0, [ExampleHandler])"
  have 1: "(0::nat) < length [ExampleHandler]" by simp
  have 2: "?D = (fst ?D, snd ?D)" by simp
  have 3: "\<forall>l\<in>set ?outer. \<not> is_Mapped l" by simp
  have 4: "Layer_TargetAsThis \<in> set ?outer \<longrightarrow> \<not> is_function words" by (simp add: words_def)
  have 5: "words \<noteq> Undefined" by (simp add: words_def)
  from getTarget_returns_target [OF wf_classes_ExampleHandler 1 2 3 4 5, of 0 start]
  show ?thesis by simp
qed

subsection \<open>C2: what \<open>Mapped\<close> does to the operations of a handler\<close>

text \<open>
  Claim C2 says that \<open>Mapped\<close> wraps the operations whose names are in a fixed vocabulary
  and leaves every other operation unwrapped.  The code contains no list of names: line
  220 asks the object \<^verbatim>\<open>Reflect\<close>, when the decorator runs, whether it has an own
  property of the name.  In a host where a library has added functions to \<^verbatim>\<open>Reflect\<close>
  (the package \<^verbatim>\<open>reflect-metadata\<close> adds \<^verbatim>\<open>getMetadata\<close> among others) a method
  \<^verbatim>\<open>getMetadata\<close> of a handler class, whose name is not the name of an operation of a
  proxy handler, is wrapped: before the decorator it returns the array it is given, after
  it the mapped array, and the mapper has run.
\<close>

theorem Mapped_wraps_added_Reflect_function_counterexample:
  "''getMetadata'' \<notin> set Reflect_keys
   \<and> the (trap metadata_env [MetadataHandler] 0 ''getMetadata'') (Handler 0) [words] start =
       (Return words, start)
   \<and> the (trap metadata_env (Mapped metadata_env addBang 0 [MetadataHandler]) 0 ''getMetadata'')
         (Handler 0) [words] start =
       (Return banged, start\<lparr>host := 1\<rparr>)"
  by (simp add: run_simps metadata_env_def MetadataHandler_def)

text \<open>
  Claim C2, amended.  Let \<open>originalValue\<close> be the method found under the name
  \<open>propertyKey\<close> from the handler class \<open>c\<close> (on the class or on one of its ancestors).
  After \<open>Mapped mapper\<close> has been applied to \<open>c\<close>:

  \<^item> if \<^verbatim>\<open>Reflect\<close> had, when the decorator ran, an own property of the name
    \<open>propertyKey\<close> (and the name is not \<^verbatim>\<open>constructor\<close>), the function found under that
    name calls \<open>mapper\<close> on its first argument, once, and then \<open>originalValue\<close> with the
    result of \<open>mapper\<close> in the place of the first argument and with the other arguments
    as they were (when \<open>mapper\<close> throws, \<open>originalValue\<close> is not called);
  \<^item> otherwise the function found under that name is \<open>originalValue\<close>, as before.

  The run of the decorator on the class \<open>c\<close>, a class with a prototype object of its own,
  changes nothing in the state of the program: \<open>mapper\<close> does not run, whatever it would
  do.  When the names the decorator goes through include the name of every method found
  from \<open>c\<close>, the run returns, and the class table it leaves is \<open>Mapped E mapper c C\<close>.
\<close>

theorem Mapped_wraps_own_names_of_Reflect:
  assumes "wf_classes C" and "c < length C" and "lookup C c propertyKey = Some originalValue"
  shows "(Reflect_hasOwnProperty E propertyKey \<and> propertyKey \<noteq> ''constructor'' \<longrightarrow>
            trap E (Mapped E mapper c C) c propertyKey =
              Some (\<lambda>this args.
                seq (mapper (arg args 0))
                  (\<lambda>target. invoke E C originalValue Undefined (target # tl args))))
       \<and> (\<not> Reflect_hasOwnProperty E propertyKey \<or> propertyKey = ''constructor'' \<longrightarrow>
            trap E (Mapped E mapper c C) c propertyKey = Some (invoke E C originalValue)
            \<and> trap E C c propertyKey = Some (invoke E C originalValue))
       \<and> snd (Mapped_run E mapper propNames c C s) = s
       \<and> ((\<forall>n. lookup C c n \<noteq> None \<longrightarrow> n \<in> set propNames) \<longrightarrow>
            Mapped_run E mapper propNames c C s = (Return (Mapped E mapper c C), s))"
proof -
  from assms have "mrank originalValue \<le> c" using lookup_mrank [of C c propertyKey] by simp
  then have frame: "invoke E (Mapped E mapper c C) originalValue = invoke E C originalValue"
    by (rule invoke_Mapped_below)
  have traps: "(Reflect_hasOwnProperty E propertyKey \<and> propertyKey \<noteq> ''constructor'' \<longrightarrow>
            trap E (Mapped E mapper c C) c propertyKey =
              Some (\<lambda>this args.
                seq (mapper (arg args 0))
                  (\<lambda>target. invoke E C originalValue Undefined (target # tl args))))
       \<and> (\<not> Reflect_hasOwnProperty E propertyKey \<or> propertyKey = ''constructor'' \<longrightarrow>
            trap E (Mapped E mapper c C) c propertyKey = Some (invoke E C originalValue)
            \<and> trap E C c propertyKey = Some (invoke E C originalValue))"
  proof (cases "propertyKey = ''constructor''")
    case True
    with assms(2,3) frame show ?thesis by (simp add: trap_def lookup_Mapped_constructor)
  next
    case False
    with assms(2,3) frame show ?thesis
      by (simp add: trap_def lookup_Mapped_self Mapped_decorator_def)
  qed
  have run: "(\<forall>n. lookup C c n \<noteq> None \<longrightarrow> n \<in> set propNames) \<longrightarrow>
            Mapped_run E mapper propNames c C s = (Return (Mapped E mapper c C), s)"
    using Mapped_run_table [OF assms(2), of propNames E mapper s] by blast
  have state: "snd (Mapped_run E mapper propNames c C s) = s" by (rule Mapped_run_state)
  from traps state run show ?thesis by blast
qed

theorem Mapped_wraps_own_names_of_Reflect_witness:
  "Proxy_get example_env (Mapped example_env addBang 0 [ExampleHandler]) words 0 (JStr ''0'')
     (Proxy 0 words 0) start = (Return (JStr ''hello!''), start\<lparr>host := 1\<rparr>)
   \<and> Proxy_get example_env (Mapped example_env addBang 0 [ExampleHandler]) words 0 (JStr ''1'')
       (Proxy 0 words 0) (start\<lparr>host := 1\<rparr>) = (Return (JStr ''world!''), start\<lparr>host := 2\<rparr>)
   \<and> map_option (\<lambda>f. f (Handler 0) [] start)
        (trap example_env (Mapped example_env addBang 0 [ExampleHandler]) 0 ''describe'') =
      Some (Return (JStr ''default''), start)
   \<and> Mapped_run example_env addBang [''get'', ''describe''] 0 [ExampleHandler] start =
       (Return (Mapped example_env addBang 0 [ExampleHandler]), start)
   \<and> Mapped_run example_env (\<lambda>from. throw TypeError) [''describe'', ''get''] 0 [ExampleHandler]
       (start\<lparr>host := 7\<rparr>) =
       (Return (Mapped example_env (\<lambda>from. throw TypeError) 0 [ExampleHandler]), start\<lparr>host := 7\<rparr>)"
proof -
  have 1: "(0::nat) < length [ExampleHandler]" by simp
  have 2: "lookup [ExampleHandler] 0 ''get'' =
             Some (Host (\<lambda>this args. Reflect_get example_env (arg args 0) (arg args 1) (arg args 2)))"
    by (simp add: lookup.simps ExampleHandler_def)
  have 3: "lookup [ExampleHandler] 0 ''describe'' =
             Some (Host (\<lambda>this args. return (JStr ''default'')))"
    by (simp add: lookup.simps ExampleHandler_def)
  have 4: "\<forall>n. lookup [ExampleHandler] 0 n \<noteq> None \<longrightarrow> n \<in> set [''get'', ''describe'']"
    by (simp add: lookup.simps ExampleHandler_def)
  have 5: "\<forall>n. lookup [ExampleHandler] 0 n \<noteq> None \<longrightarrow> n \<in> set [''describe'', ''get'']"
    by (simp add: lookup.simps ExampleHandler_def)
  have 6: "Reflect_hasOwnProperty example_env ''get''"
    by (simp add: example_env_def Reflect_keys_def)
  have 7: "\<not> Reflect_hasOwnProperty example_env ''describe''"
    by (simp add: example_env_def Reflect_keys_def)
  have 8: "''get'' \<noteq> ''constructor''" by simp
  note get_instance =
    Mapped_wraps_own_names_of_Reflect [OF wf_classes_ExampleHandler 1 2,
      where E = example_env and mapper = addBang and propNames = "[''get'', ''describe'']"
        and s = start]
  note describe_instance =
    Mapped_wraps_own_names_of_Reflect [OF wf_classes_ExampleHandler 1 3,
      where E = example_env and mapper = addBang and propNames = "[''get'', ''describe'']"
        and s = start]
  note throwing_instance =
    Mapped_wraps_own_names_of_Reflect [OF wf_classes_ExampleHandler 1 3,
      where E = example_env and mapper = "\<lambda>from. throw TypeError"
        and propNames = "[''describe'', ''get'']" and s = "start\<lparr>host := 7\<rparr>"]
  from get_instance 6 8
  have get: "trap example_env (Mapped example_env addBang 0 [ExampleHandler]) 0 ''get'' =
               Some (\<lambda>this args.
                 seq (addBang (arg args 0))
                   (\<lambda>target.
                      invoke example_env [ExampleHandler]
                        (Host (\<lambda>this args.
                           Reflect_get example_env (arg args 0) (arg args 1) (arg args 2)))
                        Undefined (target # tl args)))"
    by blast
  from describe_instance 7
  have describe: "trap example_env (Mapped example_env addBang 0 [ExampleHandler]) 0 ''describe'' =
                    Some (invoke example_env [ExampleHandler]
                            (Host (\<lambda>this args. return (JStr ''default''))))"
    by blast
  from get_instance 4
  have run: "Mapped_run example_env addBang [''get'', ''describe''] 0 [ExampleHandler] start =
               (Return (Mapped example_env addBang 0 [ExampleHandler]), start)"
    by blast
  from throwing_instance 5
  have throwing: "Mapped_run example_env (\<lambda>from. throw TypeError) [''describe'', ''get''] 0
                    [ExampleHandler] (start\<lparr>host := 7\<rparr>) =
                  (Return (Mapped example_env (\<lambda>from. throw TypeError) 0 [ExampleHandler]),
                   start\<lparr>host := 7\<rparr>)"
    by blast
  from get describe run throwing show ?thesis
    by (simp add: Proxy_get_def handler_get_def seq_def return_def arg_def
        addBang_def example_env_def example_get_def words_def banged_def start_def)
qed

subsection \<open>C3: \<open>getTarget\<close> of \<^verbatim>\<open>null\<close> and \<^verbatim>\<open>undefined\<close>\<close>

text \<open>
  Claim C3 says that \<open>getTarget\<close> returns \<^verbatim>\<open>undefined\<close> and never raises, for every
  input, \<^verbatim>\<open>null\<close> and \<^verbatim>\<open>undefined\<close> included; the documentation of the function
  (lines 180--183) says the same.  The function reads a property of its argument, and
  that read throws a \<^verbatim>\<open>TypeError\<close> for these two inputs.
\<close>

theorem getTarget_of_null_throws:
  "getTarget E C Null s = (Throw TypeError, s) \<and> getTarget E C Undefined s = (Throw TypeError, s)"
  by (simp add: getTarget_def throw_def)

subsection \<open>C4: what a decorator does to the class it is applied to\<close>

text \<open>
  Claim C4 says that each of the five decorators leaves the handler class it is applied
  to unchanged and produces a new one.  \<open>Mapped\<close> does neither: it returns nothing, and it
  redefines the operations on the class it was given.  In the example a handler made from
  the class \<open>ExampleHandler\<close> reads \<^verbatim>\<open>'hello'\<close> before \<open>Mapped addBang\<close> is applied to that
  class and \<^verbatim>\<open>'hello!'\<close> after, and the class table has one class before and after.
\<close>

theorem Mapped_changes_its_class_counterexample:
  "Proxy_get example_env [ExampleHandler] words 0 (JStr ''0'') (Proxy 0 words 0) start =
     (Return (JStr ''hello''), start)
   \<and> Proxy_get example_env (Mapped example_env addBang 0 [ExampleHandler]) words 0 (JStr ''0'')
       (Proxy 0 words 0) start = (Return (JStr ''hello!''), start\<lparr>host := 1\<rparr>)
   \<and> length (Mapped example_env addBang 0 [ExampleHandler]) = length [ExampleHandler]"
  by (simp add: run_simps)

text \<open>
  Claim C4, amended.  \<open>TargetAsThis\<close>, \<open>DefaultToPrimitive\<close>, \<open>DefaultToStringTag\<close> and
  \<open>AllowGetTarget\<close> produce a new handler class and leave every class that existed before,
  the one they are applied to included, as it was: the same entry in the class table and
  the same function under every operation name.  \<open>Mapped mapper\<close> produces no class: the
  class of the stack stays the one it was applied to, and the table has as many classes as
  before.  It redefines operations on that class itself: for every method found from the
  class under a name that is an own property name of \<^verbatim>\<open>Reflect\<close> (and not
  \<^verbatim>\<open>constructor\<close>), the class then has, as a method of its own, the arrow function that
  runs \<open>mapper\<close> and calls that method, a handler of the class runs this function under
  the name, and the entry of the class is no longer the one it was.
\<close>

theorem decorators_frame:
  assumes "wf_classes C" and "c < length C"
  shows "(\<forall>D\<in>{TargetAsThis, DefaultToPrimitive, DefaultToStringTag, AllowGetTarget}.
            fst (D c C) = length C \<and> length (snd (D c C)) = Suc (length C)
            \<and> (\<forall>d<length C. snd (D c C) ! d = C ! d
                  \<and> (\<forall>n. trap E (snd (D c C)) d n = trap E C d n)))
       \<and> fst (decorate E (Layer_Mapped mapper) (c, C)) = c
       \<and> length (snd (decorate E (Layer_Mapped mapper) (c, C))) = length C
       \<and> (\<forall>n m. lookup C c n = Some m \<and> Reflect_hasOwnProperty E n \<and> n \<noteq> ''constructor'' \<longrightarrow>
             methods (Mapped E mapper c C ! c) n = Some (Mapped_value mapper m)
             \<and> trap E (Mapped E mapper c C) c n =
                 Some (\<lambda>this args.
                   seq (mapper (arg args 0)) (\<lambda>target. invoke E C m Undefined (target # tl args)))
             \<and> Mapped E mapper c C ! c \<noteq> C ! c)"
proof -
  have ext: "fst (extends k c C) = length C \<and> length (snd (extends k c C)) = Suc (length C)
            \<and> (\<forall>d<length C. snd (extends k c C) ! d = C ! d
                  \<and> (\<forall>n. trap E (snd (extends k c C)) d n = trap E C d n))" for k
    using assms(1) by (simp add: extends_def nth_append trap_append)
  have own: "methods (Mapped E mapper c C ! c) n = Some (Mapped_value mapper m)
             \<and> trap E (Mapped E mapper c C) c n =
                 Some (\<lambda>this args.
                   seq (mapper (arg args 0)) (\<lambda>target. invoke E C m Undefined (target # tl args)))
             \<and> Mapped E mapper c C ! c \<noteq> C ! c"
    if m: "lookup C c n = Some m" and r: "Reflect_hasOwnProperty E n" and n: "n \<noteq> ''constructor''"
    for n m
  proof -
    from assms(1) m have "mrank m \<le> c" by (rule lookup_mrank)
    then have "invoke E (Mapped E mapper c C) m = invoke E C m" by (rule invoke_Mapped_below)
    with assms(2) m r n have
      "trap E (Mapped E mapper c C) c n =
         Some (\<lambda>this args.
           seq (mapper (arg args 0)) (\<lambda>target. invoke E C m Undefined (target # tl args)))"
      by (simp add: trap_def lookup_Mapped_self Mapped_decorator_def)
    moreover from assms(2) m r n
    have "methods (Mapped E mapper c C ! c) n = Some (Mapped_value mapper m)"
      by (simp add: methods_Mapped Mapped_decorator_def)
    moreover from assms(2) m r n have "Mapped E mapper c C ! c \<noteq> C ! c"
      by (rule Mapped_changes_entry)
    ultimately show ?thesis by simp
  qed
  from ext have four: "\<forall>D\<in>{TargetAsThis, DefaultToPrimitive, DefaultToStringTag, AllowGetTarget}.
            fst (D c C) = length C \<and> length (snd (D c C)) = Suc (length C)
            \<and> (\<forall>d<length C. snd (D c C) ! d = C ! d
                  \<and> (\<forall>n. trap E (snd (D c C)) d n = trap E C d n))"
    by (simp add: TargetAsThis_def DefaultToPrimitive_def DefaultToStringTag_def
        AllowGetTarget_def)
  from own have "\<forall>n m. lookup C c n = Some m \<and> Reflect_hasOwnProperty E n \<and> n \<noteq> ''constructor'' \<longrightarrow>
             methods (Mapped E mapper c C ! c) n = Some (Mapped_value mapper m)
             \<and> trap E (Mapped E mapper c C) c n =
                 Some (\<lambda>this args.
                   seq (mapper (arg args 0)) (\<lambda>target. invoke E C m Undefined (target # tl args)))
             \<and> Mapped E mapper c C ! c \<noteq> C ! c"
    by blast
  with four show ?thesis by (simp add: length_Mapped)
qed

theorem decorators_frame_witness:
  "fst (AllowGetTarget 1 TwoClasses) = 2
   \<and> snd (AllowGetTarget 1 TwoClasses) ! 0 = TwoClasses ! 0
   \<and> snd (AllowGetTarget 1 TwoClasses) ! 1 = TwoClasses ! 1
   \<and> trap example_env (snd (DefaultToPrimitive 1 TwoClasses)) 1 ''get'' =
       trap example_env TwoClasses 1 ''get''
   \<and> length (Mapped example_env addBang 1 TwoClasses) = 2
   \<and> methods (TwoClasses ! 1) ''describe'' = None
   \<and> methods (Mapped example_env addBang 1 TwoClasses ! 1) ''get'' =
       Some (Mapped_value addBang (get_of class_TargetAsThis 0))
   \<and> Mapped example_env addBang 1 TwoClasses ! 1 \<noteq> TwoClasses ! 1"
proof -
  have len: "length TwoClasses = 2" by (simp add: TwoClasses_def TargetAsThis_def extends_def)
  then have 1: "(1::nat) < length TwoClasses" by simp
  have 2: "lookup TwoClasses 1 ''get'' = Some (get_of class_TargetAsThis 0)"
    by (simp add: TwoClasses_def TargetAsThis_def extends_def lookup.simps)
  have 3: "Reflect_hasOwnProperty example_env ''get''"
    by (simp add: example_env_def Reflect_keys_def)
  have 4: "methods (TwoClasses ! 1) ''describe'' = None"
    by (simp add: TwoClasses_def TargetAsThis_def extends_def)
  note frame = decorators_frame [OF wf_classes_TwoClasses 1, of example_env addBang]
  from frame have four: "\<forall>D\<in>{TargetAsThis, DefaultToPrimitive, DefaultToStringTag, AllowGetTarget}.
            fst (D 1 TwoClasses) = length TwoClasses
            \<and> (\<forall>d<length TwoClasses. snd (D 1 TwoClasses) ! d = TwoClasses ! d
                  \<and> (\<forall>n. trap example_env (snd (D 1 TwoClasses)) d n = trap example_env TwoClasses d n))"
    by blast
  have 5: "''get'' \<noteq> ''constructor''" by simp
  from frame 2 3 5 have own:
    "methods (Mapped example_env addBang 1 TwoClasses ! 1) ''get'' =
       Some (Mapped_value addBang (get_of class_TargetAsThis 0))
     \<and> Mapped example_env addBang 1 TwoClasses ! 1 \<noteq> TwoClasses ! 1"
    by blast
  from frame len have "length (Mapped example_env addBang 1 TwoClasses) = 2" by simp
  with four own len 4 show ?thesis by simp
qed

subsection \<open>C5: \<open>TargetAsThis\<close>\<close>

text \<open>
  The next three claims are about the method \<^verbatim>\<open>get\<close> of one class expression.  On a
  handler whose class was made by a decorator from the class \<open>c\<close>, that method runs with
  the \<^verbatim>\<open>get\<close> of \<open>c\<close> as its base (\<open>handler_get_extends\<close>); the statements hold for
  every base.
\<close>

text \<open>
  Claim C5.  Let the \<^verbatim>\<open>get\<close> of the base layer return \<open>property\<close>.  If \<open>property\<close> is
  callable, the \<^verbatim>\<open>get\<close> of \<open>TargetAsThis\<close> returns a new function object whose \<^verbatim>\<open>name\<close> is
  the value read from \<^verbatim>\<open>property.name\<close>; calling it with \<^verbatim>\<open>this\<close> identical to the
  receiver of the read calls \<open>property\<close> with \<^verbatim>\<open>this\<close> bound to the target, calling it with
  any other \<^verbatim>\<open>this\<close> calls \<open>property\<close> with that \<^verbatim>\<open>this\<close>, and the arguments are the same in
  both cases.  If \<open>property\<close> is not callable, it is returned as it is.
\<close>

theorem TargetAsThis_get_rebinds_this:
  assumes "base_get target p receiver s = (Return property, s1)"
  shows "(is_function property \<longrightarrow>
            (\<forall>name s2.
               get_property E property (JStr ''name'') (s1\<lparr>next_id := Suc (next_id s1)\<rparr>) = (Return name, s2) \<longrightarrow>
               TargetAsThis_get E base_get target p receiver s =
                 (Return (wrappedFunction (next_id s1) name False property receiver target), s2)
               \<and> (\<forall>argArray.
                     Reflect_apply E (wrappedFunction (next_id s1) name False property receiver target)
                       receiver argArray =
                     Reflect_apply E property target argArray)
               \<and> (\<forall>this argArray. this \<noteq> receiver \<longrightarrow>
                     Reflect_apply E (wrappedFunction (next_id s1) name False property receiver target)
                       this argArray =
                     Reflect_apply E property this argArray)))
       \<and> (\<not> is_function property \<longrightarrow>
            TargetAsThis_get E base_get target p receiver s = (Return property, s1))"
  using assms by (simp add: TargetAsThis_get_def seq_def new_function_def return_def)

theorem TargetAsThis_get_rebinds_this_witness:
  "TargetAsThis_get example_env (Reflect_get example_env) words (JStr ''valueOf'') (Proxy 0 words 1)
     start =
     (Return (wrappedFunction 0 (JStr ''valueOf'') False Object_valueOf (Proxy 0 words 1) words),
      start\<lparr>next_id := 1\<rparr>)
   \<and> Reflect_apply example_env
       (wrappedFunction 0 (JStr ''valueOf'') False Object_valueOf (Proxy 0 words 1) words)
       (Proxy 0 words 1) [] start = (Return words, start)
   \<and> Reflect_apply example_env
       (wrappedFunction 0 (JStr ''valueOf'') False Object_valueOf (Proxy 0 words 1) words)
       banged [] start = (Return banged, start)
   \<and> TargetAsThis_get example_env (Reflect_get example_env) words (JStr ''0'') (Proxy 0 words 1)
       start = (Return (JStr ''hello''), start)"
proof -
  have 1: "Reflect_get example_env words (JStr ''valueOf'') (Proxy 0 words 1) start =
             (Return Object_valueOf, start)"
    by (simp add: example_env_def example_get_def return_def)
  have 2: "Reflect_get example_env words (JStr ''0'') (Proxy 0 words 1) start =
             (Return (JStr ''hello''), start)"
    by (simp add: example_env_def example_get_def return_def)
  from TargetAsThis_get_rebinds_this [of "Reflect_get example_env" words "JStr ''valueOf''"
         "Proxy 0 words 1" start Object_valueOf start example_env, OF 1]
       TargetAsThis_get_rebinds_this [of "Reflect_get example_env" words "JStr ''0''"
         "Proxy 0 words 1" start "JStr ''hello''" start example_env, OF 2]
  show ?thesis by (simp add: run_simps)
qed

subsection \<open>C6: \<open>DefaultToPrimitive\<close>\<close>

text \<open>
  Claim C6.  Let the \<^verbatim>\<open>get\<close> of the base layer return \<open>property\<close>.  If \<open>property\<close> is not
  \<^verbatim>\<open>undefined\<close>, the \<^verbatim>\<open>get\<close> of \<open>DefaultToPrimitive\<close> returns it as it is.  If it is
  \<^verbatim>\<open>undefined\<close> and the key is \<^verbatim>\<open>Symbol.toPrimitive\<close>, the result is a function that maps
  the hint \<^verbatim>\<open>'string'\<close> to \<^verbatim>\<open>String(target)\<close>, \<^verbatim>\<open>'number'\<close> to \<^verbatim>\<open>Number(target)\<close> and
  \<^verbatim>\<open>'default'\<close> to \<^verbatim>\<open>target.valueOf()\<close>.  If it is \<^verbatim>\<open>undefined\<close> and the key is another
  one, the result is \<^verbatim>\<open>undefined\<close>.
\<close>

theorem DefaultToPrimitive_get_supplies_hook:
  assumes "base_get target p receiver s = (Return property, s1)"
  shows "(property \<noteq> Undefined \<longrightarrow>
            DefaultToPrimitive_get E base_get target p receiver s = (Return property, s1))
       \<and> (property = Undefined \<and> p = JSym Symbol_toPrimitive \<longrightarrow>
            DefaultToPrimitive_get E base_get target p receiver s =
              (Return (toPrimitiveFunction (next_id s1) target), s1\<lparr>next_id := Suc (next_id s1)\<rparr>)
            \<and> (\<forall>this.
                  Reflect_apply E (toPrimitiveFunction (next_id s1) target) this [JStr ''string''] =
                    String_of E target
                \<and> Reflect_apply E (toPrimitiveFunction (next_id s1) target) this [JStr ''number''] =
                    Number_of E target
                \<and> Reflect_apply E (toPrimitiveFunction (next_id s1) target) this [JStr ''default''] =
                    valueOf E target))
       \<and> (property = Undefined \<and> p \<noteq> JSym Symbol_toPrimitive \<longrightarrow>
            DefaultToPrimitive_get E base_get target p receiver s = (Return Undefined, s1))"
  using assms
  by (auto simp add: DefaultToPrimitive_get_def seq_def new_function_def return_def arg_def)

theorem DefaultToPrimitive_get_supplies_hook_witness:
  "DefaultToPrimitive_get example_env (Reflect_get example_env) words (JSym Symbol_toPrimitive)
     (Proxy 0 words 1) start =
     (Return (toPrimitiveFunction 0 words), start\<lparr>next_id := 1\<rparr>)
   \<and> Reflect_apply example_env (toPrimitiveFunction 0 words) Undefined [JStr ''string''] start =
       (Return (JStr ''hello,world''), start)
   \<and> Reflect_apply example_env (toPrimitiveFunction 0 words) Undefined [JStr ''default''] start =
       (Return words, start)
   \<and> DefaultToPrimitive_get example_env (Reflect_get example_env) words (JStr ''0'')
       (Proxy 0 words 1) start = (Return (JStr ''hello''), start)
   \<and> DefaultToPrimitive_get example_env (Reflect_get example_env) words (JStr ''2'')
       (Proxy 0 words 1) start = (Return Undefined, start)"
proof -
  have 1: "Reflect_get example_env words (JSym Symbol_toPrimitive) (Proxy 0 words 1) start =
             (Return Undefined, start)"
    by (simp add: example_env_def example_get_def return_def)
  have 2: "Reflect_get example_env words (JStr ''0'') (Proxy 0 words 1) start =
             (Return (JStr ''hello''), start)"
    by (simp add: example_env_def example_get_def return_def)
  have 3: "Reflect_get example_env words (JStr ''2'') (Proxy 0 words 1) start =
             (Return Undefined, start)"
    by (simp add: example_env_def example_get_def return_def)
  from DefaultToPrimitive_get_supplies_hook [of "Reflect_get example_env" words
         "JSym Symbol_toPrimitive" "Proxy 0 words 1" start Undefined start example_env, OF 1]
       DefaultToPrimitive_get_supplies_hook [of "Reflect_get example_env" words "JStr ''0''"
         "Proxy 0 words 1" start "JStr ''hello''" start example_env, OF 2]
       DefaultToPrimitive_get_supplies_hook [of "Reflect_get example_env" words "JStr ''2''"
         "Proxy 0 words 1" start Undefined start example_env, OF 3]
  show ?thesis by (simp add: run_simps)
qed

subsection \<open>C7: \<open>DefaultToStringTag\<close>\<close>

text \<open>
  Claim C7.  Let the \<^verbatim>\<open>get\<close> of the base layer return \<open>property\<close>.  If \<open>property\<close> is
  \<^verbatim>\<open>undefined\<close> and the key is \<^verbatim>\<open>Symbol.toStringTag\<close>, the \<^verbatim>\<open>get\<close> of
  \<open>DefaultToStringTag\<close> takes the prototype of the target; without a prototype the result
  is \<^verbatim>\<open>undefined\<close>; otherwise it reads the \<^verbatim>\<open>constructor\<close> of the prototype and returns
  what reading the \<^verbatim>\<open>name\<close> of the constructor gives if the constructor is callable, and
  \<^verbatim>\<open>undefined\<close> if it is not.  For every other key, and whenever \<open>property\<close> is not
  \<^verbatim>\<open>undefined\<close>, the result is \<open>property\<close>.
\<close>

theorem DefaultToStringTag_get_names_constructor:
  assumes "base_get target p receiver s = (Return property, s1)"
  shows "(property = Undefined \<and> p = JSym Symbol_toStringTag \<longrightarrow>
            (\<forall>prototype s2. Object_getPrototypeOf E target s1 = (Return prototype, s2) \<longrightarrow>
               (prototype = Undefined \<or> prototype = Null \<longrightarrow>
                  DefaultToStringTag_get E base_get target p receiver s = (Return Undefined, s2))
               \<and> (prototype \<noteq> Undefined \<and> prototype \<noteq> Null \<longrightarrow>
                    (\<forall>constructor s3.
                       get_property E prototype (JStr ''constructor'') s2 = (Return constructor, s3) \<longrightarrow>
                       (is_function constructor \<longrightarrow>
                          DefaultToStringTag_get E base_get target p receiver s =
                            get_property E constructor (JStr ''name'') s3)
                       \<and> (\<not> is_function constructor \<longrightarrow>
                            DefaultToStringTag_get E base_get target p receiver s =
                              (Return Undefined, s3))))))
       \<and> (property \<noteq> Undefined \<or> p \<noteq> JSym Symbol_toStringTag \<longrightarrow>
            DefaultToStringTag_get E base_get target p receiver s = (Return property, s1))"
  using assms
  by (auto simp add: DefaultToStringTag_get_def seq_def return_def)

theorem DefaultToStringTag_get_names_constructor_witness:
  "DefaultToStringTag_get example_env (Reflect_get example_env) words (JSym Symbol_toStringTag)
     (Proxy 0 words 1) start = (Return (JStr ''Array''), start)
   \<and> DefaultToStringTag_get example_env (Reflect_get example_env) bare
       (JSym Symbol_toStringTag) (Proxy 0 bare 1) start = (Return Undefined, start)
   \<and> DefaultToStringTag_get example_env (Reflect_get example_env) words (JStr ''1'')
       (Proxy 0 words 1) start = (Return (JStr ''world''), start)"
proof -
  have 1: "Reflect_get example_env words (JSym Symbol_toStringTag) (Proxy 0 words 1) start =
             (Return Undefined, start)"
    by (simp add: example_env_def example_get_def return_def)
  have 2: "Reflect_get example_env bare (JSym Symbol_toStringTag) (Proxy 0 bare 1) start =
             (Return Undefined, start)"
    by (simp add: example_env_def example_get_def return_def)
  have 3: "Reflect_get example_env words (JStr ''1'') (Proxy 0 words 1) start =
             (Return (JStr ''world''), start)"
    by (simp add: example_env_def example_get_def return_def)
  from DefaultToStringTag_get_names_constructor [of "Reflect_get example_env" words
         "JSym Symbol_toStringTag" "Proxy 0 words 1" start Undefined start example_env, OF 1]
       DefaultToStringTag_get_names_constructor [of "Reflect_get example_env" bare
         "JSym Symbol_toStringTag" "Proxy 0 bare 1" start Undefined start example_env, OF 2]
       DefaultToStringTag_get_names_constructor [of "Reflect_get example_env" words "JStr ''1''"
         "Proxy 0 words 1" start "JStr ''world''" start example_env, OF 3]
  show ?thesis by (simp add: run_simps)
qed

subsection \<open>C8: \<open>getTarget\<close> on a stack without \<open>AllowGetTarget\<close>\<close>

text \<open>
  Claim C8 says that \<open>getTarget\<close> returns \<^verbatim>\<open>undefined\<close> for every target and every
  ordering of the layers without \<open>AllowGetTarget\<close>, the empty one included.  \<open>getTarget\<close> is
  a property read, and without \<open>AllowGetTarget\<close> the read arrives at the base handler or at
  the target.  Two examples where it finds a value there: the proxy of a proxy, the inner
  one with \<open>AllowGetTarget\<close> and the outer one with a handler \<^verbatim>\<open>class Base {}\<close> and no
  layer (the read is forwarded to the inner proxy, which answers with its own target);
  and a base handler that supplies a default for every missing property.
\<close>

theorem getTarget_without_AllowGetTarget_counterexample:
  "getTarget (forwarding_env (snd (AllowGetTarget 0 [EmptyHandler])))
     (snd (AllowGetTarget 0 [EmptyHandler]))
     (Proxy 1 (Proxy 0 words (fst (AllowGetTarget 0 [EmptyHandler]))) 0) start =
     (Return words, start)
   \<and> getTarget example_env
       (snd (decorated example_env [Layer_TargetAsThis] (0, [DefaultingHandler])))
       (Proxy 0 words (fst (decorated example_env [Layer_TargetAsThis] (0, [DefaultingHandler]))))
       start =
       (Return (JStr ''n/a''), start)"
  by (simp add: run_simps forwarding_env_def EmptyHandler_def DefaultingHandler_def)

text \<open>
  Claim C8, amended.  Take a target and a stack of layers without \<open>AllowGetTarget\<close> (the
  empty one included) over a base handler, and the read of \<open>getTargetSymbol\<close> that
  \<open>getTarget\<close> makes on the proxy.  The read arrives at the base handler with the target
  that the \<open>Mapped\<close> layers of the stack have made of the target of the proxy.  If the base
  handler answers that read, for that target, with \<^verbatim>\<open>undefined\<close> (by its own \<^verbatim>\<open>get\<close>, or
  by \<^verbatim>\<open>Reflect.get\<close> on that target when it has none), then \<open>getTarget\<close> applied to the
  proxy returns \<^verbatim>\<open>undefined\<close>, in the state the base handler left.
\<close>

theorem getTarget_without_AllowGetTarget:
  assumes "wf_classes C" and "base < length C"
    and "decorated E layers (base, C) = (h, C')"
    and "Layer_AllowGetTarget \<notin> set layers"
    and "passes_down E layers (base, C) (Handler h) target s = (Return (this', t), sa)"
    and "handler_get E C base this' t (JSym getTargetSymbol) (Proxy i target h) sa =
           (Return Undefined, sb)"
  shows "getTarget E C' (Proxy i target h) s = (Return Undefined, sb)"
proof -
  have "\<forall>l\<in>set layers. \<forall>k. layer_class_of l = Some k \<longrightarrow>
          passes_up k (JSym getTargetSymbol) Undefined"
  proof (intro ballI allI impI)
    fix l k
    assume "l \<in> set layers" and "layer_class_of l = Some k"
    with assms(4) show "passes_up k (JSym getTargetSymbol) Undefined" by (cases l) auto
  qed
  from handler_get_decorated [OF assms(1,2,3,5,6) this]
  show ?thesis by (simp add: getTarget_def Proxy_get_def)
qed

theorem getTarget_without_AllowGetTarget_witness:
  "getTarget example_env
     (snd (decorated example_env
             [Layer_Mapped addBang, Layer_DefaultToPrimitive, Layer_DefaultToStringTag,
              Layer_TargetAsThis] (0, [ExampleHandler])))
     (Proxy 0 words
        (fst (decorated example_env
                [Layer_Mapped addBang, Layer_DefaultToPrimitive, Layer_DefaultToStringTag,
                 Layer_TargetAsThis] (0, [ExampleHandler]))))
     start = (Return Undefined, start\<lparr>host := 1\<rparr>)
   \<and> getTarget example_env [ExampleHandler] (Proxy 0 words 0) start = (Return Undefined, start)"
proof -
  let ?layers = "[Layer_Mapped addBang, Layer_DefaultToPrimitive, Layer_DefaultToStringTag,
                  Layer_TargetAsThis]"
  let ?D = "decorated example_env ?layers (0, [ExampleHandler])"
  have 1: "(0::nat) < length [ExampleHandler]" by simp
  have 2: "?D = (fst ?D, snd ?D)" by simp
  have 3: "Layer_AllowGetTarget \<notin> set ?layers" by simp
  have 4: "passes_down example_env ?layers (0, [ExampleHandler]) (Handler (fst ?D)) words start =
             (Return (Undefined, banged), start\<lparr>host := 1\<rparr>)"
    by (simp add: run_simps)
  have 5: "handler_get example_env [ExampleHandler] 0 Undefined banged (JSym getTargetSymbol)
             (Proxy 0 words (fst ?D)) (start\<lparr>host := 1\<rparr>) = (Return Undefined, start\<lparr>host := 1\<rparr>)"
    by (simp add: run_simps)
  have 6: "decorated example_env [] (0, [ExampleHandler]) = (0, [ExampleHandler])"
    by (simp add: decorated_def)
  have 7: "Layer_AllowGetTarget \<notin> set ([] :: nat layer list)" by simp
  have 8: "passes_down example_env [] (0, [ExampleHandler]) (Handler 0) words start =
             (Return (Handler 0, words), start)"
    by (simp add: return_def)
  have 9: "handler_get example_env [ExampleHandler] 0 (Handler 0) words (JSym getTargetSymbol)
             (Proxy 0 words 0) start = (Return Undefined, start)"
    by (simp add: run_simps)
  from getTarget_without_AllowGetTarget [OF wf_classes_ExampleHandler 1 2 3 4 5]
       getTarget_without_AllowGetTarget [OF wf_classes_ExampleHandler 1 6 7 8 9]
  show ?thesis by simp
qed

subsection \<open>C9: exceptions of the base layer\<close>

text \<open>
  Claim C9.  When the operation a layer delegates to raises an exception, the operation
  of the layer raises that exception, in the state the base left.  For the four classes
  the delegation is the call \<^verbatim>\<open>(super.get ?? Reflect.get)(target, p, receiver)\<close>, which
  \<open>AllowGetTarget\<close> makes for every key but \<open>getTargetSymbol\<close>; for \<open>Mapped\<close> it is the call
  of \<open>originalValue\<close> on the mapped target.
\<close>

theorem layers_propagate_exceptions:
  "(super_get E C c (arg args 0) (arg args 1) (arg args 2) s = (Throw e, s')
      \<and> (k = class_AllowGetTarget \<longrightarrow> arg args 1 \<noteq> JSym getTargetSymbol) \<longrightarrow>
      invoke E C (get_of k c) this args s = (Throw e, s'))
   \<and> (mapper (arg args 0) s = (Return target, sm)
      \<and> invoke E C originalValue Undefined (target # tl args) sm = (Throw e, s') \<longrightarrow>
      invoke E C (Mapped_value mapper originalValue) this args s = (Throw e, s'))"
proof -
  have "class_get k E base_get target p receiver s = (Throw e, s')"
    if "base_get target p receiver s = (Throw e, s')"
      and "k = class_AllowGetTarget \<longrightarrow> p \<noteq> JSym getTargetSymbol"
    for base_get target p receiver
    using that
    by (cases k)
      (simp_all add: TargetAsThis_get_def DefaultToPrimitive_get_def DefaultToStringTag_get_def
        AllowGetTarget_get_def seq_def)
  then show ?thesis by (simp add: invoke_get_of seq_def del: invoke.simps(2))
qed

theorem layers_propagate_exceptions_witness:
  "invoke example_env [RefusingHandler] (get_of class_TargetAsThis 0) (Handler 1)
     [words, JStr ''0'', Proxy 0 words 1] start = (Throw TypeError, start)
   \<and> invoke example_env [RefusingHandler] (get_of class_AllowGetTarget 0) (Handler 1)
       [words, JStr ''0'', Proxy 0 words 1] start = (Throw TypeError, start)
   \<and> invoke example_env [RefusingHandler] (Mapped_value addBang (Host (\<lambda>this args. throw TypeError)))
       (Handler 0) [words, JStr ''0'', Proxy 0 words 0] start =
       (Throw TypeError, start\<lparr>host := 1\<rparr>)"
proof -
  have 1: "super_get example_env [RefusingHandler] 0 words (JStr ''0'') (Proxy 0 words 1) start =
             (Throw TypeError, start)"
    by (simp add: super_get_def lookup.simps RefusingHandler_def throw_def)
  let ?args = "[words, JStr ''0'', Proxy 0 words 1]"
  let ?refuse = "Host (\<lambda>this args. throw TypeError) :: nat meth"
  from layers_propagate_exceptions [where E = example_env and C = "[RefusingHandler]" and c = 0
         and args = ?args and s = start and e = TypeError and s' = start
         and k = class_TargetAsThis and this = "Handler 1" and mapper = addBang
         and target = banged and sm = "start\<lparr>host := 1\<rparr>" and originalValue = ?refuse]
       layers_propagate_exceptions [where E = example_env and C = "[RefusingHandler]" and c = 0
         and args = ?args and s = start and e = TypeError and s' = start
         and k = class_AllowGetTarget and this = "Handler 1" and mapper = addBang
         and target = banged and sm = "start\<lparr>host := 1\<rparr>" and originalValue = ?refuse]
       layers_propagate_exceptions [where E = example_env and C = "[RefusingHandler]" and c = 0
         and args = "[words, JStr ''0'', Proxy 0 words 0]" and s = start and e = TypeError
         and s' = "start\<lparr>host := 1\<rparr>" and k = class_TargetAsThis and this = "Handler 0"
         and mapper = addBang and target = banged and sm = "start\<lparr>host := 1\<rparr>"
         and originalValue = ?refuse]
       1
  show ?thesis
    by (simp add: arg_def seq_def addBang_def throw_def words_def banged_def start_def
        super_get_def lookup.simps RefusingHandler_def)
qed

subsection \<open>C10: every read through \<open>TargetAsThis\<close> makes a new wrapper\<close>




end
